theory Spec2Isabelle
  imports Main
begin

section \<open>newid-mount: re-mounting a device under a fresh UUID\<close>

text \<open>
  A shallow embedding of \<^verbatim>\<open>mount.go\<close>. An identifier cannot end in an underscore
  here, so \<^verbatim>\<open>FsXFS_\<close>, \<^verbatim>\<open>Caller_\<close>, \<^verbatim>\<open>args_\<close>, \<^verbatim>\<open>path_\<close>, \<^verbatim>\<open>caller_\<close> and \<^verbatim>\<open>uuid_\<close> lose
  theirs. Go strings are byte lists; the string-typed
  \<^verbatim>\<open>FileSystemType\<close> and \<^verbatim>\<open>Caller_\<close> stay strings, so that values outside the declared
  constants (the zero value \<^verbatim>\<open>""\<close> of a fresh \<^verbatim>\<open>DevMounter\<close> among them) exist as
  they do in Go. Every external process goes through \<^verbatim>\<open>ExecCmd\<close>; the processes are
  an environment that answers a command from the commands launched so far, and the
  embedding threads the list of launched commands through every function. The
  environment also holds what the libraries bring from outside the repository: the
  fresh UUID and the case table of Unicode. A Go panic is a result of its own, next to
  the returned values.
\<close>

subsection \<open>Errors, constants, the session\<close>

datatype error =
    ErrUnsFs | ErrUnKFs | ErrDevUUID | ErrGenUUID | ErrQueryUUID | ErrUMount | ErrMount
  | ExecError string  \<comment> \<open>an error of the process library (\<^verbatim>\<open>Status.Error\<close>)\<close>

type_synonym FileSystemType = string

definition FsXFS :: FileSystemType where "FsXFS = ''xfs''"
definition FsExt2 :: FileSystemType where "FsExt2 = ''ext2''"
definition FsExt3 :: FileSystemType where "FsExt3 = ''ext3''"
definition FsExt4 :: FileSystemType where "FsExt4 = ''ext4''"
definition FsNTFs :: FileSystemType where "FsNTFs = ''ntfs''"

type_synonym Caller = string

definition CMount :: Caller where "CMount = ''mount''"
definition CUMount :: Caller where "CUMount = ''umount''"
definition CNTFs3g :: Caller where "CNTFs3g = ''ntfs-3g''"
definition CTune2FS :: Caller where "CTune2FS = ''tune2fs''"
definition CBlkID :: Caller where "CBlkID = ''blkid''"
definition CFile :: Caller where "CFile = ''file''"
definition CXFSAdmin :: Caller where "CXFSAdmin = ''xfs_admin''"

record 'c Args =
  dev :: string
  path :: string
  ctx :: 'c

record 'c DevMounter =
  args :: "'c Args"
  caller :: Caller
  fs :: FileSystemType
  uuid :: string

definition NewMounterWithArgs :: "string \<Rightarrow> string \<Rightarrow> 'c \<Rightarrow> 'c DevMounter" where
  "NewMounterWithArgs d p c =
     \<lparr>args = \<lparr>dev = d, path = p, ctx = c\<rparr>, caller = [], fs = [], uuid = []\<rparr>"

subsection \<open>Panics and the environment\<close>

datatype panic =
    PanicError error      \<comment> \<open>\<^verbatim>\<open>panic(ErrUnsFs)\<close>\<close>
  | PanicCaller Caller   \<comment> \<open>\<^verbatim>\<open>panic(CMount)\<close>\<close>
  | PanicIndex            \<comment> \<open>\<^verbatim>\<open>cs[0]\<close> on an empty slice\<close>

datatype 'a result = Done 'a | Panicked panic

text \<open>What the process library reports of a finished command.\<close>

record Status =
  Exit :: int
  Stdout :: "string list"
  Error :: "error option"

type_synonym log = "string list list"

text \<open>
  What the program is given from outside the repository: \<open>start\<close> answers the launch
  of a program with its arguments, given the commands launched before; \<open>uuidNew\<close> is
  \<^verbatim>\<open>uuid.New()\<close>; \<open>lowerRunes\<close> is \<^verbatim>\<open>strings.Map(unicode.ToLower, s)\<close>, the case table of the
  Go library, which \<^verbatim>\<open>strings.ToLower\<close> applies to a string that is not all ASCII.
\<close>

record env =
  start :: "log \<Rightarrow> string \<Rightarrow> string list \<Rightarrow> Status"
  uuidNew :: "log \<Rightarrow> string"
  lowerRunes :: "string \<Rightarrow> string"

subsection \<open>The string functions used\<close>

text \<open>
  Strings are byte lists, as in Go. \<^verbatim>\<open>strings.HasPrefix\<close>, \<^verbatim>\<open>strings.Contains\<close> and
  \<^verbatim>\<open>strings.Join\<close> compare and join bytes.
\<close>

fun HasPrefix :: "string \<Rightarrow> string \<Rightarrow> bool" where
  "HasPrefix s [] = True"
| "HasPrefix [] (p # ps) = False"
| "HasPrefix (c # cs) (p # ps) = (c = p \<and> HasPrefix cs ps)"

fun Contains :: "string \<Rightarrow> string \<Rightarrow> bool" where
  "Contains [] sub = (sub = [])"
| "Contains (c # cs) sub = (HasPrefix (c # cs) sub \<or> Contains cs sub)"

fun Join :: "string list \<Rightarrow> string \<Rightarrow> string" where
  "Join [] sep = []"
| "Join [x] sep = x"
| "Join (x # y # ys) sep = x @ sep @ Join (y # ys) sep"

text \<open>
  \<^verbatim>\<open>strings.Fields\<close> splits around the runs of white space of \<^verbatim>\<open>unicode.IsSpace\<close>: tab, line
  feed, vertical tab, form feed, carriage return, space, U+0085, U+00A0, U+1680, U+2000 to
  U+200A, U+2028, U+2029, U+202F, U+205F and U+3000. \<open>spaces\<close> lists them in UTF-8. Each
  begins with a byte that no rune holds after its first byte, so a place where one of
  them stands is the beginning of that rune, whatever bytes come before; every other byte,
  of a well-formed rune or not, belongs to a field. \<open>fieldsFrom k w s\<close> has \<open>k\<close> bytes of a
  white-space rune still to pass and \<open>w\<close> as the field read so far.
\<close>

definition spaces :: "string list" where
  "spaces =
     [[CHR 0x09], [CHR 0x0A], [CHR 0x0B], [CHR 0x0C], [CHR 0x0D], [CHR 0x20],
      [CHR 0xC2, CHR 0x85], [CHR 0xC2, CHR 0xA0], [CHR 0xE1, CHR 0x9A, CHR 0x80],
      [CHR 0xE2, CHR 0x80, CHR 0x80], [CHR 0xE2, CHR 0x80, CHR 0x81], [CHR 0xE2, CHR 0x80, CHR 0x82],
      [CHR 0xE2, CHR 0x80, CHR 0x83], [CHR 0xE2, CHR 0x80, CHR 0x84], [CHR 0xE2, CHR 0x80, CHR 0x85],
      [CHR 0xE2, CHR 0x80, CHR 0x86], [CHR 0xE2, CHR 0x80, CHR 0x87], [CHR 0xE2, CHR 0x80, CHR 0x88],
      [CHR 0xE2, CHR 0x80, CHR 0x89], [CHR 0xE2, CHR 0x80, CHR 0x8A], [CHR 0xE2, CHR 0x80, CHR 0xA8],
      [CHR 0xE2, CHR 0x80, CHR 0xA9], [CHR 0xE2, CHR 0x80, CHR 0xAF], [CHR 0xE2, CHR 0x81, CHR 0x9F],
      [CHR 0xE3, CHR 0x80, CHR 0x80]]"

fun fieldsFrom :: "nat \<Rightarrow> string \<Rightarrow> string \<Rightarrow> string list" where
  "fieldsFrom k w [] = (if w = [] then [] else [w])"
| "fieldsFrom k w (c # cs) =
     (if 0 < k then fieldsFrom (k - 1) w cs
      else (case find (HasPrefix (c # cs)) spaces of
              Some sp \<Rightarrow>
                (if w = [] then fieldsFrom (length sp - 1) [] cs
                 else w # fieldsFrom (length sp - 1) [] cs)
            | None \<Rightarrow> fieldsFrom 0 (w @ [c]) cs))"

definition Fields :: "string \<Rightarrow> string list" where
  "Fields s = fieldsFrom 0 [] s"

text \<open>
  \<^verbatim>\<open>strings.ToLower\<close>: a string of ASCII bytes only has each of its letters \<^verbatim>\<open>A\<close> to \<^verbatim>\<open>Z\<close>
  replaced by the lower-case letter; any other string goes through the case table of the
  library, \<open>lowerRunes\<close>.
\<close>

definition lowerByte :: "char \<Rightarrow> char" where
  "lowerByte c =
     (case map_of (zip ''ABCDEFGHIJKLMNOPQRSTUVWXYZ'' ''abcdefghijklmnopqrstuvwxyz'') c of
        Some l \<Rightarrow> l
      | None \<Rightarrow> c)"

definition isASCII :: "char \<Rightarrow> bool" where
  "isASCII c = ((of_char c :: nat) < 128)"

definition ToLower :: "env \<Rightarrow> string \<Rightarrow> string" where
  "ToLower e s = (if list_all isASCII s then map lowerByte s else lowerRunes e s)"

text \<open>
  \<^verbatim>\<open>regexp.MustCompile("uuid=\"(?P<uuid>.*?)\"").FindStringSubmatch\<close>: the leftmost place
  where \<^verbatim>\<open>uuid="\<close> stands and a closing quote follows on the same line (\<^verbatim>\<open>.\<close> does not
  match a newline); the group is lazy, so it ends at the first quote. The result is
  the whole match and the group, or the empty slice.
\<close>

definition quote :: char where "quote = CHR 0x22"
definition newline :: char where "newline = CHR 0x0A"

fun lazyGroup :: "string \<Rightarrow> string option" where
  "lazyGroup [] = None"
| "lazyGroup (c # cs) =
     (if c = quote then Some []
      else if c = newline then None
      else map_option ((#) c) (lazyGroup cs))"

definition uuidOpen :: string where "uuidOpen = ''uuid='' @ [quote]"

fun FindStringSubmatch :: "string \<Rightarrow> string list" where
  "FindStringSubmatch [] = []"
| "FindStringSubmatch (c # cs) =
     (if HasPrefix (c # cs) uuidOpen then
        (case lazyGroup (drop (length uuidOpen) (c # cs)) of
           Some g \<Rightarrow> [uuidOpen @ g @ [quote], g]
         | None \<Rightarrow> FindStringSubmatch cs)
      else FindStringSubmatch cs)"

subsection \<open>Running commands\<close>

definition ExecCmd :: "env \<Rightarrow> string \<Rightarrow> log \<Rightarrow> (int \<times> string \<times> error option) result \<times> log" where
  "ExecCmd e cmdStr lg =
     (case Fields cmdStr of
        [] \<Rightarrow> (Panicked PanicIndex, lg)
      | name # as \<Rightarrow>
          (let s = start e lg name as
           in (Done (Exit s, Join (Stdout s) [newline], Error s), lg @ [name # as])))"

definition GetCallerByFS :: "FileSystemType \<Rightarrow> Caller result" where
  "GetCallerByFS f =
     (if f = FsExt2 \<or> f = FsExt3 \<or> f = FsExt4 \<or> f = FsXFS then Done CMount
      else if f = FsNTFs then Done CNTFs3g
      else Panicked (PanicError ErrUnsFs))"

definition QueryDeviceUUID :: "env \<Rightarrow> string \<Rightarrow> log \<Rightarrow> (string \<times> error option) result \<times> log" where
  "QueryDeviceUUID e d lg =
     (case ExecCmd e (CBlkID @ '' | grep '' @ d) lg of
        (Panicked p, lg') \<Rightarrow> (Panicked p, lg')
      | (Done (r, out, _), lg') \<Rightarrow>
          (if r \<noteq> 0 then (Done ([], Some ErrDevUUID), lg')
           else (let us = FindStringSubmatch (ToLower e out)
                 in if length us \<ge> 2 then (Done (us ! 1, None), lg')
                    else (Done ([], Some ErrDevUUID), lg'))))"

definition UMount :: "env \<Rightarrow> string \<Rightarrow> log \<Rightarrow> error option result \<times> log" where
  "UMount e p lg =
     (case ExecCmd e (CUMount @ '' '' @ p) lg of
        (Panicked q, lg') \<Rightarrow> (Panicked q, lg')
      | (Done (r, _, _), lg') \<Rightarrow> (if r \<noteq> 0 then (Done (Some ErrUMount), lg') else (Done None, lg')))"

definition Mount :: "env \<Rightarrow> FileSystemType \<Rightarrow> string \<Rightarrow> string \<Rightarrow> string \<Rightarrow> log \<Rightarrow> error option result \<times> log" where
  "Mount e f d p c lg =
     (let c0 = (if f = FsNTFs then CNTFs3g else CMount)
      in case ExecCmd e (c0 @ '' '' @ c @ '' '' @ d @ '' '' @ p) lg of
           (Panicked q, lg') \<Rightarrow> (Panicked q, lg')
         | (Done (r, _, _), lg') \<Rightarrow> (if r \<noteq> 0 then (Done (Some ErrMount), lg') else (Done None, lg')))"

definition IsMount :: "env \<Rightarrow> string \<Rightarrow> log \<Rightarrow> bool result \<times> log" where
  "IsMount e p lg =
     (case ExecCmd e CMount lg of
        (Panicked q, lg') \<Rightarrow> (Panicked q, lg')
      | (Done (r, out, _), lg') \<Rightarrow>
          (if r \<noteq> 0 then (Panicked (PanicCaller CMount), lg')
           else if Contains out (p @ '' '') then (Done True, lg')
           else (Done False, lg')))"

definition GenExtDevUUID :: "env \<Rightarrow> string \<Rightarrow> log \<Rightarrow> error option result \<times> log" where
  "GenExtDevUUID e d lg =
     (case ExecCmd e (CTune2FS @ '' -U random '' @ d) lg of
        (Panicked q, lg') \<Rightarrow> (Panicked q, lg')
      | (Done (r, _, _), lg') \<Rightarrow> (if r \<noteq> 0 then (Done (Some ErrGenUUID), lg') else (Done None, lg')))"

definition GenXFSDevUUID :: "env \<Rightarrow> string \<Rightarrow> string \<Rightarrow> log \<Rightarrow> error option result \<times> log" where
  "GenXFSDevUUID e u d lg =
     (case ExecCmd e (CXFSAdmin @ '' -U '' @ u @ '' '' @ d) lg of
        (Panicked q, lg') \<Rightarrow> (Panicked q, lg')
      | (Done (r, _, _), lg') \<Rightarrow> (if r \<noteq> 0 then (Done (Some ErrGenUUID), lg') else (Done None, lg')))"

subsection \<open>The stages\<close>

text \<open>
  A method of \<^verbatim>\<open>*DevMounter\<close> takes the session and the log and returns both with its
  result; a panic leaves the session as it was when the panic was raised.
\<close>

type_synonym 'c stage = "'c DevMounter \<Rightarrow> log \<Rightarrow> error option result \<times> 'c DevMounter \<times> log"

definition changeEXT :: "env \<Rightarrow> 'c stage" where
  "changeEXT e m lg =
     (case GenExtDevUUID e (dev (args m)) lg of
        (Panicked q, lg1) \<Rightarrow> (Panicked q, m, lg1)
      | (Done (Some err), lg1) \<Rightarrow> (Done (Some err), m, lg1)
      | (Done None, lg1) \<Rightarrow>
          (case QueryDeviceUUID e (dev (args m)) lg1 of
             (Panicked q, lg2) \<Rightarrow> (Panicked q, m, lg2)
           | (Done (u, Some err), lg2) \<Rightarrow> (Done (Some ErrQueryUUID), m\<lparr>uuid := u\<rparr>, lg2)
           | (Done (u, None), lg2) \<Rightarrow> (Done None, m\<lparr>uuid := u\<rparr>, lg2)))"

text \<open>The closure \<^verbatim>\<open>__registerXFSDev\<close> of \<^verbatim>\<open>changeXFS\<close>; it mounts with \<^verbatim>\<open>m.fs\<close>, not with
  its own first parameter, and unmounts the device, not the path.\<close>

definition registerXFSDev ::
  "env \<Rightarrow> 'c DevMounter \<Rightarrow> FileSystemType \<Rightarrow> string \<Rightarrow> string \<Rightarrow> log \<Rightarrow> error option result \<times> log" where
  "registerXFSDev e m f d p lg =
     (case Mount e (fs m) d p ''-o rw,nouuid'' lg of
        (Panicked q, lg1) \<Rightarrow> (Panicked q, lg1)
      | (Done (Some err), lg1) \<Rightarrow> (Done (Some err), lg1)
      | (Done None, lg1) \<Rightarrow>
          (case UMount e d lg1 of
             (Panicked q, lg2) \<Rightarrow> (Panicked q, lg2)
           | (Done (Some err), lg2) \<Rightarrow> (Done (Some err), lg2)
           | (Done None, lg2) \<Rightarrow> (Done None, lg2)))"

definition changeXFS :: "env \<Rightarrow> 'c stage" where
  "changeXFS e m lg =
     (let u = uuidNew e lg
      in case registerXFSDev e m (fs m) (dev (args m)) (path (args m)) lg of
           (Panicked q, lg1) \<Rightarrow> (Panicked q, m, lg1)
         | (Done (Some err), lg1) \<Rightarrow> (Done (Some err), m, lg1)
         | (Done None, lg1) \<Rightarrow>
             (case GenXFSDevUUID e u (dev (args m)) lg1 of
                (Panicked q, lg2) \<Rightarrow> (Panicked q, m, lg2)
              | (Done (Some err), lg2) \<Rightarrow> (Done (Some err), m, lg2)
              | (Done None, lg2) \<Rightarrow> (Done None, m, lg2)))"

definition changeNTFs :: "'c stage" where
  "changeNTFs m lg = (Done None, m, lg)"

definition ChangeDevUUID :: "env \<Rightarrow> 'c stage" where
  "ChangeDevUUID e m lg =
     (if HasPrefix (fs m) ''ext'' then changeEXT e m lg
      else if fs m = FsNTFs then changeNTFs m lg
      else if fs m = FsXFS then changeXFS e m lg
      else (Done (Some ErrUnsFs), m, lg))"

definition MountDevice :: "env \<Rightarrow> 'c stage" where
  "MountDevice e m lg =
     (case Mount e (fs m) (dev (args m)) (path (args m)) [] lg of
        (r, lg') \<Rightarrow> (r, m, lg'))"

definition Check :: "env \<Rightarrow> 'c stage" where
  "Check e m lg =
     (case IsMount e (dev (args m)) lg of
        (Panicked q, lg1) \<Rightarrow> (Panicked q, m, lg1)
      | (Done True, lg1) \<Rightarrow> (Done None, m, lg1)
      | (Done False, lg1) \<Rightarrow>
          (case IsMount e (path (args m)) lg1 of
             (Panicked q, lg2) \<Rightarrow> (Panicked q, m, lg2)
           | (Done True, lg2) \<Rightarrow> (Done None, m, lg2)
           | (Done False, lg2) \<Rightarrow> (Done (Some ErrMount), m, lg2)))"

text \<open>The loop of \<^verbatim>\<open>bindFS\<close> over the five types, in the order of the slice literal.\<close>

fun bindFS_loop :: "FileSystemType list \<Rightarrow> string \<Rightarrow> 'c DevMounter \<Rightarrow> error option \<times> 'c DevMounter" where
  "bindFS_loop [] out m = (Some ErrUnKFs, m)"
| "bindFS_loop (v # vs) out m =
     (if Contains out v then (None, m\<lparr>fs := v\<rparr>) else bindFS_loop vs out m)"

definition bindFS :: "env \<Rightarrow> 'c stage" where
  "bindFS e m lg =
     (case ExecCmd e (CFile @ '' -sL '' @ dev (args m)) lg of
        (Panicked q, lg') \<Rightarrow> (Panicked q, m, lg')
      | (Done (r, out0, err0), lg') \<Rightarrow>
          (let out = ToLower e out0
           in if r \<noteq> 0 then (Done err0, m, lg')
              else (case bindFS_loop [FsExt2, FsExt3, FsExt4, FsXFS, FsNTFs] out m of
                      (err, m') \<Rightarrow> (Done err, m', lg'))))"

definition bindCaller :: "'c stage" where
  "bindCaller m lg =
     (case GetCallerByFS (fs m) of
        Panicked q \<Rightarrow> (Panicked q, m, lg)
      | Done c \<Rightarrow> (Done None, m\<lparr>caller := c\<rparr>, lg))"

definition BindArgs :: "env \<Rightarrow> 'c stage" where
  "BindArgs e m lg =
     (case bindFS e m lg of
        (Panicked q, m1, lg1) \<Rightarrow> (Panicked q, m1, lg1)
      | (Done (Some err), m1, lg1) \<Rightarrow> (Done (Some err), m1, lg1)
      | (Done None, m1, lg1) \<Rightarrow>
          (case bindCaller m1 lg1 of
             (Panicked q, m2, lg2) \<Rightarrow> (Panicked q, m2, lg2)
           | (Done (Some err), m2, lg2) \<Rightarrow> (Done (Some err), m2, lg2)
           | (Done None, m2, lg2) \<Rightarrow> (Done None, m2, lg2)))"

definition Start :: "env \<Rightarrow> 'c stage" where
  "Start e m lg =
     (case BindArgs e m lg of
        (Panicked q, m1, lg1) \<Rightarrow> (Panicked q, m1, lg1)
      | (Done (Some err), m1, lg1) \<Rightarrow> (Done (Some err), m1, lg1)
      | (Done None, m1, lg1) \<Rightarrow>
     (case ChangeDevUUID e m1 lg1 of
        (Panicked q, m2, lg2) \<Rightarrow> (Panicked q, m2, lg2)
      | (Done (Some err), m2, lg2) \<Rightarrow> (Done (Some err), m2, lg2)
      | (Done None, m2, lg2) \<Rightarrow>
     (case MountDevice e m2 lg2 of
        (Panicked q, m3, lg3) \<Rightarrow> (Panicked q, m3, lg3)
      | (Done (Some err), m3, lg3) \<Rightarrow> (Done (Some err), m3, lg3)
      | (Done None, m3, lg3) \<Rightarrow>
     (case Check e m3 lg3 of
        (Panicked q, m4, lg4) \<Rightarrow> (Panicked q, m4, lg4)
      | (Done (Some err), m4, lg4) \<Rightarrow> (Done (Some err), m4, lg4)
      | (Done None, m4, lg4) \<Rightarrow> (Done None, m4, lg4)))))"

subsection \<open>Reading the environment, and scripted environments\<close>

text \<open>The exit code the environment gives the command line \<open>c\<close> after the commands \<open>lg\<close>, and
  the output \<^verbatim>\<open>ExecCmd\<close> makes of its lines.\<close>

definition exitOf :: "env \<Rightarrow> log \<Rightarrow> string list \<Rightarrow> int" where
  "exitOf e lg c = Exit (start e lg (hd c) (tl c))"

definition outputOf :: "env \<Rightarrow> log \<Rightarrow> string list \<Rightarrow> string" where
  "outputOf e lg c = Join (Stdout (start e lg (hd c) (tl c))) [newline]"

definition errorOf :: "env \<Rightarrow> log \<Rightarrow> string list \<Rightarrow> error option" where
  "errorOf e lg c = Error (start e lg (hd c) (tl c))"

text \<open>\<open>sub\<close> stands somewhere in \<open>s\<close>: what \<^verbatim>\<open>strings.Contains\<close> decides.\<close>

definition substring :: "string \<Rightarrow> string \<Rightarrow> bool" where
  "substring sub s = (\<exists>a b. s = a @ sub @ b)"

text \<open>
  Environments for concrete runs: a table from command lines to what the process
  library reports. A command that is not in the table does not start. A command that
  exits nonzero has no \<^verbatim>\<open>Status.Error\<close>: the library keeps that for failures to launch.
  The scripted outputs are ASCII unless said otherwise, so the case table is not
  consulted and is left empty.
\<close>

definition ok :: "string list \<Rightarrow> Status" where
  "ok out = \<lparr>Exit = 0, Stdout = out, Error = None\<rparr>"

definition exited :: "int \<Rightarrow> Status" where
  "exited n = \<lparr>Exit = n, Stdout = [], Error = None\<rparr>"

definition notStarted :: Status where
  "notStarted = \<lparr>Exit = - 1, Stdout = [], Error = Some (ExecError ''executable file not found'')\<rparr>"

definition scripted :: "(string list \<times> Status) list \<Rightarrow> env" where
  "scripted tbl =
     \<lparr>start = (\<lambda>lg name as. case map_of tbl (name # as) of Some s \<Rightarrow> s | None \<Rightarrow> notStarted),
      uuidNew = (\<lambda>lg. ''0b6a3c1e-5d2f-4e8a-9c47-1f2e3d4c5b6a''),
      lowerRunes = (\<lambda>s. s)\<rparr>"

definition sdb1 :: "string DevMounter" where
  "sdb1 = NewMounterWithArgs ''/dev/sdb1'' ''/mnt/data'' ''{}''"

text \<open>An ext4 device on which every step succeeds.\<close>

definition ext4Table :: "(string list \<times> Status) list" where
  "ext4Table =
     [([''file'', ''-sL'', ''/dev/sdb1''],
         ok [''/dev/sdb1: Linux rev 1.0 ext4 filesystem data (extents) (large files)'']),
      ([''tune2fs'', ''-U'', ''random'', ''/dev/sdb1''], ok [''tune2fs 1.45.5 (07-Jan-2020)'']),
      ([''blkid'', ''|'', ''grep'', ''/dev/sdb1''],
         ok [''/dev/sdb1: UUID='' @ [quote] @ ''1234-ABCD'' @ [quote] @ '' TYPE='' @ [quote] @ ''ext4'' @ [quote]]),
      ([''mount'', ''/dev/sdb1'', ''/mnt/data''], ok []),
      ([''mount''], ok [''/dev/sda1 on / type ext4 (rw,relatime)'',
                       ''/dev/sdb1 on /mnt/data type ext4 (rw,relatime)''])]"

text \<open>An xfs device on which every step succeeds.\<close>

definition xfsTable :: "(string list \<times> Status) list" where
  "xfsTable =
     [([''file'', ''-sL'', ''/dev/sdb1''], ok [''/dev/sdb1: SGI XFS filesystem data (blksz 4096)'']),
      ([''mount'', ''-o'', ''rw,nouuid'', ''/dev/sdb1'', ''/mnt/data''], ok []),
      ([''umount'', ''/dev/sdb1''], ok []),
      ([''xfs_admin'', ''-U'', ''0b6a3c1e-5d2f-4e8a-9c47-1f2e3d4c5b6a'', ''/dev/sdb1''], ok []),
      ([''mount'', ''/dev/sdb1'', ''/mnt/data''], ok []),
      ([''mount''], ok [''/dev/sdb1 on /mnt/data type xfs (rw,relatime)''])]"

text \<open>The ext4 device when \<^verbatim>\<open>tune2fs\<close> exits with 1.\<close>

definition tuneFails :: env where
  "tuneFails = scripted (([''tune2fs'', ''-U'', ''random'', ''/dev/sdb1''], exited 1) # ext4Table)"

text \<open>The ext4 device when the listing of the mounts, \<^verbatim>\<open>mount\<close> without arguments, answers \<open>s\<close>.\<close>

definition listingIs :: "Status \<Rightarrow> env" where
  "listingIs s = scripted (([''mount''], s) # ext4Table)"

text \<open>The ext4 device when \<^verbatim>\<open>blkid\<close> prints an empty UUID.\<close>

definition emptyUUID :: env where
  "emptyUUID =
     scripted (([''blkid'', ''|'', ''grep'', ''/dev/sdb1''],
                ok [''/dev/sdb1: UUID='' @ [quote, quote] @ '' TYPE='' @ [quote] @ ''ext4'' @ [quote]])
               # ext4Table)"

text \<open>The ext4 device when the probe \<^verbatim>\<open>file -sL\<close> exits with 1.\<close>

definition probeFails :: env where
  "probeFails = scripted (([''file'', ''-sL'', ''/dev/sdb1''], exited 1) # ext4Table)"

text \<open>The xfs device when the mount with \<^verbatim>\<open>nouuid\<close> exits with 32.\<close>

definition nouuidFails :: env where
  "nouuidFails =
     scripted (([''mount'', ''-o'', ''rw,nouuid'', ''/dev/sdb1'', ''/mnt/data''], exited 32) # xfsTable)"

text \<open>
  The ext4 device when \<^verbatim>\<open>blkid\<close> prints \<^verbatim>\<open>UU\<close>, the letter U+0130 (capital I with a dot, the
  bytes C4 B0) and \<^verbatim>\<open>D="AB"\<close>. The case table of Go lower-cases U+0130 to \<^verbatim>\<open>i\<close>.
\<close>

definition dottedLine :: string where
  "dottedLine = ''/dev/sdb1: UU'' @ [CHR 0xC4, CHR 0xB0] @ ''D='' @ [quote] @ ''AB'' @ [quote]"

definition dottedI :: env where
  "dottedI =
     (scripted (([''blkid'', ''|'', ''grep'', ''/dev/sdb1''], ok [dottedLine]) # ext4Table))
       \<lparr>lowerRunes :=
          (\<lambda>s. if s = dottedLine then ''/dev/sdb1: uuid='' @ [quote] @ ''ab'' @ [quote] else s)\<rparr>"

text \<open>A byte with which a white-space rune begins.\<close>

definition spaceLead :: "char \<Rightarrow> bool" where
  "spaceLead c = (c \<in> set (map hd spaces))"

section \<open>Properties\<close>

subsection \<open>Strings\<close>

lemma HasPrefix_iff: "HasPrefix s p \<longleftrightarrow> (\<exists>q. s = p @ q)"
  by (induction s p rule: HasPrefix.induct) auto

lemma Contains_iff: "Contains s sub \<longleftrightarrow> substring sub s"
  unfolding substring_def
proof (induction s)
  case Nil
  then show ?case by auto
next
  case (Cons c cs)
  show ?case
  proof
    assume "Contains (c # cs) sub"
    then consider "HasPrefix (c # cs) sub" | "Contains cs sub" by auto
    then show "\<exists>a b. c # cs = a @ sub @ b"
    proof cases
      case 1
      then obtain q where "c # cs = sub @ q" by (auto simp: HasPrefix_iff)
      then have "c # cs = [] @ sub @ q" by simp
      then show ?thesis by blast
    next
      case 2
      then obtain a b where "cs = a @ sub @ b" using Cons.IH by blast
      then have "c # cs = (c # a) @ sub @ b" by simp
      then show ?thesis by blast
    qed
  next
    assume "\<exists>a b. c # cs = a @ sub @ b"
    then obtain a b where ab: "c # cs = a @ sub @ b" by blast
    show "Contains (c # cs) sub"
    proof (cases a)
      case Nil
      with ab have "HasPrefix (c # cs) sub" by (auto simp: HasPrefix_iff)
      then show ?thesis by simp
    next
      case (Cons x a')
      with ab have "cs = a' @ sub @ b" by simp
      then have "Contains cs sub" using Cons.IH by blast
      then show ?thesis by simp
    qed
  qed
qed

lemma HasPrefix_absent:
  "s \<notin> set sp \<Longrightarrow> HasPrefix (x @ s # b) sp = HasPrefix x sp"
proof (induction x arbitrary: sp)
  case Nil
  then show ?case by (cases sp) auto
next
  case (Cons c x)
  then show ?case by (cases sp) auto
qed

lemma HasPrefix_before:
  "s \<notin> set (tl sp) \<Longrightarrow> HasPrefix (c # x @ s # b) sp = HasPrefix (c # x) sp"
  by (cases sp) (simp_all add: HasPrefix_absent)

lemma HasPrefix_length: "HasPrefix s p \<Longrightarrow> length p \<le> length s"
  by (induction s p rule: HasPrefix.induct) auto

text \<open>A blank after a string does not change which white-space rune the string begins
  with: none of them holds a blank after its first byte.\<close>

lemma spaces_tl: "sp \<in> set spaces \<Longrightarrow> CHR '' '' \<notin> set (tl sp)"
  by (auto simp: spaces_def)

lemma find_space_before:
  "find (HasPrefix (c # x @ CHR '' '' # b)) spaces = find (HasPrefix (c # x)) spaces"
  by (rule find_cong) (simp_all add: HasPrefix_before spaces_tl)

lemma find_space_length:
  "find (HasPrefix (c # x)) spaces = Some sp \<Longrightarrow> length sp - 1 \<le> length x"
  by (auto simp: find_Some_iff dest!: HasPrefix_length)

lemma find_space_blank: "find (HasPrefix (CHR '' '' # b)) spaces = Some '' ''"
  by (simp add: spaces_def)

lemma find_space_none: "\<not> spaceLead c \<Longrightarrow> find (HasPrefix (c # cs)) spaces = None"
  by (auto simp: find_None_iff spaceLead_def spaces_def)

lemma fieldsFrom_space:
  "k \<le> length a \<Longrightarrow>
     fieldsFrom k w (a @ CHR '' '' # b) = fieldsFrom k w a @ fieldsFrom 0 [] b"
proof (induction a arbitrary: k w)
  case Nil
  then show ?case by (simp add: find_space_blank)
next
  case (Cons c a)
  show ?case
  proof (cases "0 < k")
    case True
    with Cons.prems have "k - 1 \<le> length a" by simp
    from Cons.IH [OF this] True show ?thesis by simp
  next
    case False
    show ?thesis
    proof (cases "find (HasPrefix (c # a)) spaces")
      case None
      with False show ?thesis
        using Cons.IH [of 0 "w @ [c]"] by (simp add: find_space_before)
    next
      case (Some sp)
      from find_space_length [OF Some] have "length sp - 1 \<le> length a" .
      from Cons.IH [OF this] Some False show ?thesis
        by (simp add: find_space_before)
    qed
  qed
qed

lemma Fields_space: "Fields (a @ CHR '' '' # b) = Fields a @ Fields b"
  by (simp add: Fields_def fieldsFrom_space)

lemma fieldsFrom_word:
  "\<forall>c\<in>set w. \<not> spaceLead c \<Longrightarrow> fieldsFrom 0 a (w @ rest) = fieldsFrom 0 (a @ w) rest"
  by (induction w arbitrary: a) (simp_all add: find_space_none)

lemma Fields_single:
  assumes "w \<noteq> []" and "\<forall>c\<in>set w. \<not> spaceLead c"
  shows "Fields w = [w]"
  using assms fieldsFrom_word [of w "[]" "[]"]
  by (simp add: Fields_def)

text \<open>A device path with U+00A0 in it is two arguments; a byte C2 that begins no rune
  stays in its field.\<close>

lemma Fields_beyond_ASCII:
  "Fields (''/dev/sd'' @ [CHR 0xC2, CHR 0xA0] @ ''b1'') = [''/dev/sd'', ''b1'']"
  "Fields (''/dev/sd'' @ [CHR 0xC2] @ ''b1 '' @ [CHR 0xE2, CHR 0x80, CHR 0x83] @ ''x'') =
     [''/dev/sd'' @ [CHR 0xC2] @ ''b1'', ''x'']"
  by (simp_all add: Fields_def spaces_def)

text \<open>On ASCII bytes \<open>lowerByte\<close> is the step \<^verbatim>\<open>c += 'a' - 'A'\<close> on the bytes from \<^verbatim>\<open>A\<close> to
  \<^verbatim>\<open>Z\<close>, and on every byte it leaves the others.\<close>

lemma of_char_lowerByte:
  "(of_char (lowerByte c) :: nat) =
     (if 65 \<le> (of_char c :: nat) \<and> (of_char c :: nat) \<le> 90 then of_char c + 32 else of_char c)"
proof (cases c)
  case (Char b0 b1 b2 b3 b4 b5 b6 b7)
  show ?thesis
    unfolding Char
    by (cases b0; cases b1; cases b2; cases b3; cases b4; cases b5; cases b6; cases b7;
        simp add: lowerByte_def)
qed

lemma ToLower_ASCII:
  assumes "\<forall>c \<in> set s. (of_char c :: nat) < 128"
  shows "length (ToLower e s) = length s"
    and "i < length s \<Longrightarrow>
      (of_char (ToLower e s ! i) :: nat) =
        (if 65 \<le> (of_char (s ! i) :: nat) \<and> (of_char (s ! i) :: nat) \<le> 90
         then of_char (s ! i) + 32 else of_char (s ! i))"
proof -
  from assms have "list_all isASCII s"
    by (simp add: list_all_iff isASCII_def)
  then have eq: "ToLower e s = map lowerByte s"
    by (simp add: ToLower_def)
  show "length (ToLower e s) = length s"
    by (simp add: eq)
  show "(of_char (ToLower e s ! i) :: nat) =
        (if 65 \<le> (of_char (s ! i) :: nat) \<and> (of_char (s ! i) :: nat) \<le> 90
         then of_char (s ! i) + 32 else of_char (s ! i))" if "i < length s"
    using that by (simp only: eq nth_map of_char_lowerByte)
qed

subsection \<open>What each command function launches\<close>

lemma ExecCmd_tool:
  assumes "w \<noteq> []" and "\<forall>c\<in>set w. \<not> spaceLead c"
  shows "ExecCmd e (w @ CHR '' '' # rest) lg =
     (Done (exitOf e lg (w # Fields rest), outputOf e lg (w # Fields rest),
            errorOf e lg (w # Fields rest)), lg @ [w # Fields rest])"
  by (simp add: ExecCmd_def Fields_space Fields_single [OF assms] Let_def exitOf_def outputOf_def errorOf_def)

lemma ExecCmd_bare:
  assumes "w \<noteq> []" and "\<forall>c\<in>set w. \<not> spaceLead c"
  shows "ExecCmd e w lg =
     (Done (exitOf e lg [w], outputOf e lg [w], errorOf e lg [w]), lg @ [[w]])"
  by (simp add: ExecCmd_def Fields_single [OF assms] Let_def exitOf_def outputOf_def errorOf_def)

lemma tool_words:
  "CMount \<noteq> [] \<and> (\<forall>c\<in>set CMount. \<not> spaceLead c)"
  "CUMount \<noteq> [] \<and> (\<forall>c\<in>set CUMount. \<not> spaceLead c)"
  "CNTFs3g \<noteq> [] \<and> (\<forall>c\<in>set CNTFs3g. \<not> spaceLead c)"
  "CTune2FS \<noteq> [] \<and> (\<forall>c\<in>set CTune2FS. \<not> spaceLead c)"
  "CBlkID \<noteq> [] \<and> (\<forall>c\<in>set CBlkID. \<not> spaceLead c)"
  "CFile \<noteq> [] \<and> (\<forall>c\<in>set CFile. \<not> spaceLead c)"
  "CXFSAdmin \<noteq> [] \<and> (\<forall>c\<in>set CXFSAdmin. \<not> spaceLead c)"
  by (simp_all add: CMount_def CUMount_def CNTFs3g_def CTune2FS_def CBlkID_def CFile_def
        CXFSAdmin_def spaceLead_def spaces_def)

lemma Mount_run:
  "Mount e f d p c lg =
     (let a = (if f = FsNTFs then CNTFs3g else CMount) # Fields c @ Fields d @ Fields p
      in if exitOf e lg a \<noteq> 0 then (Done (Some ErrMount), lg @ [a]) else (Done None, lg @ [a]))"
  using tool_words(1,3)
  by (simp add: Mount_def ExecCmd_tool Fields_space Let_def)

lemma UMount_run:
  "UMount e p lg =
     (let a = CUMount # Fields p
      in if exitOf e lg a \<noteq> 0 then (Done (Some ErrUMount), lg @ [a]) else (Done None, lg @ [a]))"
  using tool_words(2)
  by (simp add: UMount_def ExecCmd_tool Let_def)

lemma GenExtDevUUID_run:
  "GenExtDevUUID e d lg =
     (let a = CTune2FS # ''-U'' # ''random'' # Fields d
      in if exitOf e lg a \<noteq> 0 then (Done (Some ErrGenUUID), lg @ [a]) else (Done None, lg @ [a]))"
proof -
  have "Fields (''-U random '' @ d) = ''-U'' # ''random'' # Fields d"
    by (simp add: Fields_def spaces_def)
  then show ?thesis
    using tool_words(4) by (simp add: GenExtDevUUID_def ExecCmd_tool Let_def)
qed

lemma GenXFSDevUUID_run:
  "GenXFSDevUUID e u d lg =
     (let a = CXFSAdmin # ''-U'' # Fields u @ Fields d
      in if exitOf e lg a \<noteq> 0 then (Done (Some ErrGenUUID), lg @ [a]) else (Done None, lg @ [a]))"
proof -
  have "Fields (''-U '' @ u @ '' '' @ d) = ''-U'' # Fields u @ Fields d"
    using Fields_space [of "''-U''" "u @ '' '' @ d"] Fields_space [of u d]
    by (simp add: Fields_single spaceLead_def spaces_def)
  then show ?thesis
    using tool_words(7) by (simp add: GenXFSDevUUID_def ExecCmd_tool Let_def)
qed

lemma IsMount_run:
  "IsMount e p lg =
     (if exitOf e lg [CMount] \<noteq> 0 then (Panicked (PanicCaller CMount), lg @ [[CMount]])
      else (Done (Contains (outputOf e lg [CMount]) (p @ '' '')), lg @ [[CMount]]))"
  using tool_words(1) by (simp add: IsMount_def ExecCmd_bare)

lemma QueryDeviceUUID_run:
  "QueryDeviceUUID e d lg =
     (let a = CBlkID # ''|'' # ''grep'' # Fields d;
          us = FindStringSubmatch (ToLower e (outputOf e lg a))
      in if exitOf e lg a \<noteq> 0 \<or> length us < 2 then (Done ([], Some ErrDevUUID), lg @ [a])
         else (Done (us ! 1, None), lg @ [a]))"
proof -
  have "Fields (''| grep '' @ d) = ''|'' # ''grep'' # Fields d"
    by (simp add: Fields_def spaces_def)
  then show ?thesis
    using tool_words(5) by (simp add: QueryDeviceUUID_def ExecCmd_tool Let_def)
qed


lemma Fields_Nil: "Fields [] = []"
  by (simp add: Fields_def)

subsection \<open>The strategies and the detector\<close>

lemma bindFS_loop_find:
  "bindFS_loop vs out m =
     (case find (Contains out) vs of
        Some v \<Rightarrow> (None, m\<lparr>fs := v\<rparr>)
      | None \<Rightarrow> (Some ErrUnKFs, m))"
  by (induction vs) simp_all

lemma bindFS_run:
  "bindFS e m lg =
     (let a = CFile # ''-sL'' # Fields (dev (args m));
          out = ToLower e (outputOf e lg a)
      in if exitOf e lg a \<noteq> 0 then (Done (errorOf e lg a), m, lg @ [a])
         else (case find (Contains out) [FsExt2, FsExt3, FsExt4, FsXFS, FsNTFs] of
                 Some v \<Rightarrow> (Done None, m\<lparr>fs := v\<rparr>, lg @ [a])
               | None \<Rightarrow> (Done (Some ErrUnKFs), m, lg @ [a])))"
proof -
  have "Fields (''-sL '' @ d) = ''-sL'' # Fields d" for d
    by (simp add: Fields_def spaces_def)
  then show ?thesis
    using tool_words(6)
    by (simp add: bindFS_def ExecCmd_tool Let_def bindFS_loop_find split: option.splits)
qed

lemma MountDevice_run:
  "MountDevice e m lg =
     (let a = (if fs m = FsNTFs then CNTFs3g else CMount) # Fields (dev (args m)) @ Fields (path (args m))
      in if exitOf e lg a \<noteq> 0 then (Done (Some ErrMount), m, lg @ [a]) else (Done None, m, lg @ [a]))"
  by (simp add: MountDevice_def Mount_run Fields_Nil Let_def)

lemma changeEXT_run:
  "changeEXT e m lg =
     (let c1 = CTune2FS # ''-U'' # ''random'' # Fields (dev (args m));
          c2 = CBlkID # ''|'' # ''grep'' # Fields (dev (args m));
          us = FindStringSubmatch (ToLower e (outputOf e (lg @ [c1]) c2))
      in if exitOf e lg c1 \<noteq> 0 then (Done (Some ErrGenUUID), m, lg @ [c1])
         else if exitOf e (lg @ [c1]) c2 \<noteq> 0 \<or> length us < 2
              then (Done (Some ErrQueryUUID), m\<lparr>uuid := []\<rparr>, lg @ [c1, c2])
         else (Done None, m\<lparr>uuid := us ! 1\<rparr>, lg @ [c1, c2]))"
  by (simp add: changeEXT_def GenExtDevUUID_run QueryDeviceUUID_run Let_def)

lemma changeXFS_run:
  "changeXFS e m lg =
     (let c1 = (if fs m = FsNTFs then CNTFs3g else CMount) # ''-o'' # ''rw,nouuid''
                 # Fields (dev (args m)) @ Fields (path (args m));
          c2 = CUMount # Fields (dev (args m));
          c3 = CXFSAdmin # ''-U'' # Fields (uuidNew e lg) @ Fields (dev (args m))
      in if exitOf e lg c1 \<noteq> 0 then (Done (Some ErrMount), m, lg @ [c1])
         else if exitOf e (lg @ [c1]) c2 \<noteq> 0 then (Done (Some ErrUMount), m, lg @ [c1, c2])
         else if exitOf e (lg @ [c1, c2]) c3 \<noteq> 0 then (Done (Some ErrGenUUID), m, lg @ [c1, c2, c3])
         else (Done None, m, lg @ [c1, c2, c3]))"
proof -
  have "Fields ''-o rw,nouuid'' = [''-o'', ''rw,nouuid'']"
    by (simp add: Fields_def spaces_def)
  then show ?thesis
    by (simp add: changeXFS_def registerXFSDev_def Mount_run UMount_run GenXFSDevUUID_run Let_def)
qed

subsection \<open>What each stage does\<close>

lemma Check_run:
  "Check e m lg =
     (let l1 = lg @ [[CMount]]; l2 = l1 @ [[CMount]]
      in if exitOf e lg [CMount] \<noteq> 0 then (Panicked (PanicCaller CMount), m, l1)
         else if substring (dev (args m) @ '' '') (outputOf e lg [CMount]) then (Done None, m, l1)
         else if exitOf e l1 [CMount] \<noteq> 0 then (Panicked (PanicCaller CMount), m, l2)
         else if substring (path (args m) @ '' '') (outputOf e l1 [CMount]) then (Done None, m, l2)
         else (Done (Some ErrMount), m, l2))"
  by (simp add: Check_def IsMount_run Contains_iff Let_def)

lemma Start_reaches_Check:
  assumes "BindArgs e m lg = (Done None, m1, l1)"
    and "ChangeDevUUID e m1 l1 = (Done None, m2, l2)"
    and "MountDevice e m2 l2 = (Done None, m3, l3)"
  shows "Start e m lg = Check e m3 l3"
  using assms
  by (cases "Check e m3 l3") (simp add: Start_def split: result.splits option.splits)

subsection \<open>The scripted runs\<close>

lemmas constants =
  CMount_def CUMount_def CNTFs3g_def CTune2FS_def CBlkID_def CFile_def CXFSAdmin_def
  FsExt2_def FsExt3_def FsExt4_def FsXFS_def FsNTFs_def quote_def newline_def

lemmas reading =
  exitOf_def outputOf_def errorOf_def scripted_def ext4Table_def xfsTable_def ok_def exited_def
  notStarted_def Fields_def spaces_def ToLower_def isASCII_def lowerByte_def sdb1_def
  NewMounterWithArgs_def

lemma listingIs_BindArgs:
  "BindArgs (listingIs s) sdb1 [] =
     (Done None, sdb1\<lparr>fs := FsExt4, caller := CMount\<rparr>, [[''file'', ''-sL'', ''/dev/sdb1'']])"
  by (simp add: BindArgs_def bindFS_run bindCaller_def GetCallerByFS_def listingIs_def
        constants reading)

lemma listingIs_ChangeDevUUID:
  "ChangeDevUUID (listingIs s) (sdb1\<lparr>fs := FsExt4, caller := CMount\<rparr>) [[''file'', ''-sL'', ''/dev/sdb1'']] =
     (Done None, sdb1\<lparr>fs := FsExt4, caller := CMount, uuid := ''1234-abcd''\<rparr>,
      [[''file'', ''-sL'', ''/dev/sdb1''], [''tune2fs'', ''-U'', ''random'', ''/dev/sdb1''],
       [''blkid'', ''|'', ''grep'', ''/dev/sdb1'']])"
  by (simp add: ChangeDevUUID_def changeEXT_run listingIs_def uuidOpen_def constants reading)

lemma listingIs_MountDevice:
  "MountDevice (listingIs s) (sdb1\<lparr>fs := FsExt4, caller := CMount, uuid := ''1234-abcd''\<rparr>)
      [[''file'', ''-sL'', ''/dev/sdb1''], [''tune2fs'', ''-U'', ''random'', ''/dev/sdb1''],
       [''blkid'', ''|'', ''grep'', ''/dev/sdb1'']] =
     (Done None, sdb1\<lparr>fs := FsExt4, caller := CMount, uuid := ''1234-abcd''\<rparr>,
      [[''file'', ''-sL'', ''/dev/sdb1''], [''tune2fs'', ''-U'', ''random'', ''/dev/sdb1''],
       [''blkid'', ''|'', ''grep'', ''/dev/sdb1''], [''mount'', ''/dev/sdb1'', ''/mnt/data'']])"
  by (simp add: MountDevice_run listingIs_def constants reading)


subsection \<open>The match of the UUID pattern\<close>

lemma lazyGroup_Some:
  "lazyGroup s = Some g \<Longrightarrow> (\<exists>r. s = g @ quote # r) \<and> quote \<notin> set g \<and> newline \<notin> set g"
proof (induction s arbitrary: g)
  case Nil
  then show ?case by simp
next
  case (Cons c cs)
  show ?case
  proof (cases "c = quote")
    case True
    with Cons.prems show ?thesis by simp
  next
    case False
    with Cons.prems obtain g' where g': "c \<noteq> newline" "lazyGroup cs = Some g'" "g = c # g'"
      by (auto split: if_splits)
    from Cons.IH [OF g'(2)] False g'(1,3) show ?thesis by auto
  qed
qed

lemma lazyGroup_None:
  "lazyGroup s = None \<Longrightarrow> s = g @ quote # r \<Longrightarrow> newline \<in> set g"
proof (induction s arbitrary: g)
  case Nil
  then show ?case by simp
next
  case (Cons c cs)
  from Cons.prems(1) have c: "c \<noteq> quote" by (auto split: if_splits)
  with Cons.prems(2) obtain g' where g': "g = c # g'" "cs = g' @ quote # r"
    by (cases g) auto
  show ?case
  proof (cases "c = newline")
    case True
    with g' show ?thesis by simp
  next
    case False
    with Cons.prems(1) c have "lazyGroup cs = None" by (auto split: if_splits)
    from Cons.IH [OF this g'(2)] g'(1) show ?thesis by simp
  qed
qed

lemma FindStringSubmatch_step:
  "s \<noteq> [] \<Longrightarrow> FindStringSubmatch s =
     (if HasPrefix s uuidOpen then
        (case lazyGroup (drop (length uuidOpen) s) of
           Some g \<Rightarrow> [uuidOpen @ g @ [quote], g]
         | None \<Rightarrow> FindStringSubmatch (tl s))
      else FindStringSubmatch (tl s))"
  by (cases s) (simp_all split: option.splits)

lemma FindStringSubmatch_match:
  "FindStringSubmatch s \<noteq> [] \<Longrightarrow>
     \<exists>g. FindStringSubmatch s = [uuidOpen @ g @ [quote], g]
        \<and> substring (uuidOpen @ g @ [quote]) s \<and> quote \<notin> set g \<and> newline \<notin> set g"
proof (induction s)
  case Nil
  then show ?case by simp
next
  case (Cons c cs)
  show ?case
  proof (cases "HasPrefix (c # cs) uuidOpen
                \<and> lazyGroup (drop (length uuidOpen) (c # cs)) \<noteq> None")
    case True
    then obtain rest g where rest: "c # cs = uuidOpen @ rest" and g: "lazyGroup rest = Some g"
      by (auto simp: HasPrefix_iff)
    from lazyGroup_Some [OF g] obtain r where r: "rest = g @ quote # r"
      and clean: "quote \<notin> set g" "newline \<notin> set g" by blast
    have "drop (length uuidOpen) (uuidOpen @ rest) = rest" by simp
    with g have "FindStringSubmatch (uuidOpen @ rest) = [uuidOpen @ g @ [quote], g]"
      using FindStringSubmatch_step [of "uuidOpen @ rest"] by (simp add: HasPrefix_iff uuidOpen_def)
    then have "FindStringSubmatch (c # cs) = [uuidOpen @ g @ [quote], g]"
      using rest by simp
    moreover have "c # cs = [] @ (uuidOpen @ g @ [quote]) @ r"
      using rest r by simp
    then have "substring (uuidOpen @ g @ [quote]) (c # cs)"
      unfolding substring_def by blast
    ultimately show ?thesis using clean by blast
  next
    case False
    then have eq: "FindStringSubmatch (c # cs) = FindStringSubmatch cs"
      by (auto split: option.splits)
    with Cons.prems have "FindStringSubmatch cs \<noteq> []" by simp
    from Cons.IH [OF this] obtain g a b where
      g: "FindStringSubmatch cs = [uuidOpen @ g @ [quote], g]"
        "cs = a @ (uuidOpen @ g @ [quote]) @ b" "quote \<notin> set g" "newline \<notin> set g"
      unfolding substring_def by blast
    from g(2) have "c # cs = (c # a) @ (uuidOpen @ g @ [quote]) @ b" by simp
    then have "substring (uuidOpen @ g @ [quote]) (c # cs)"
      unfolding substring_def by blast
    with eq g show ?thesis by simp
  qed
qed

lemma FindStringSubmatch_none:
  "FindStringSubmatch s = [] \<Longrightarrow> s = a @ uuidOpen @ g @ quote # b \<Longrightarrow> newline \<in> set g"
proof (induction s arbitrary: a)
  case Nil
  then show ?case by (simp add: uuidOpen_def)
next
  case (Cons c cs)
  show ?case
  proof (cases a)
    case Nil
    with Cons.prems(2) have rest: "c # cs = uuidOpen @ (g @ quote # b)" by simp
    then have pre: "HasPrefix (c # cs) uuidOpen" by (auto simp: HasPrefix_iff)
    have "drop (length uuidOpen) (c # cs) = g @ quote # b"
      unfolding rest by simp
    with Cons.prems(1) pre have "lazyGroup (g @ quote # b) = None"
      using FindStringSubmatch_step [of "c # cs"] by (auto split: option.splits)
    from lazyGroup_None [OF this] show ?thesis by simp
  next
    case (Cons x a')
    with Cons.prems(2) have cs: "cs = a' @ uuidOpen @ g @ quote # b" by simp
    from Cons.prems(1) have "FindStringSubmatch cs = []"
      by (auto split: if_splits option.splits)
    from Cons.IH [OF this cs] show ?thesis .
  qed
qed

lemma FindStringSubmatch_length:
  "length (FindStringSubmatch s) < 2 \<longleftrightarrow> FindStringSubmatch s = []"
  using FindStringSubmatch_match [of s] by (cases "FindStringSubmatch s = []") auto

subsection \<open>The first type that stands in the output\<close>

lemma find_none: "\<forall>w \<in> set vs. \<not> P w \<Longrightarrow> find P vs = None"
  by (induction vs) auto

lemma find_only:
  "v \<in> set vs \<Longrightarrow> P v \<Longrightarrow> \<forall>w \<in> set vs. P w \<longrightarrow> w = v \<Longrightarrow> find P vs = Some v"
proof (induction vs)
  case Nil
  then show ?case by simp
next
  case (Cons x xs)
  show ?case
  proof (cases "P x")
    case True
    with Cons.prems(3) have "x = v" by simp
    with True show ?thesis by simp
  next
    case False
    with Cons.prems(1,2) have "v \<in> set xs" by auto
    moreover from Cons.prems(3) have "\<forall>w \<in> set xs. P w \<longrightarrow> w = v" by simp
    ultimately have "find P xs = Some v" using Cons.prems(2) by (intro Cons.IH)
    with False show ?thesis by simp
  qed
qed


lemma bindFS_detects:
  assumes "exitOf e lg (CFile # ''-sL'' # Fields (dev (args m))) = 0"
  shows "bindFS e m lg =
        (case find (\<lambda>v. substring v (ToLower e (outputOf e lg (CFile # ''-sL'' # Fields (dev (args m))))))
                [FsExt2, FsExt3, FsExt4, FsXFS, FsNTFs] of
           Some v \<Rightarrow> (Done None, m\<lparr>fs := v\<rparr>, lg @ [CFile # ''-sL'' # Fields (dev (args m))])
         | None \<Rightarrow> (Done (Some ErrUnKFs), m, lg @ [CFile # ''-sL'' # Fields (dev (args m))]))"
proof -
  let ?a = "CFile # ''-sL'' # Fields (dev (args m))"
  let ?out = "ToLower e (outputOf e lg ?a)"
  have "Contains ?out = (\<lambda>v. substring v ?out)"
    by (rule ext) (rule Contains_iff)
  then have same: "find (\<lambda>v. substring v ?out) [FsExt2, FsExt3, FsExt4, FsXFS, FsNTFs]
      = find (Contains ?out) [FsExt2, FsExt3, FsExt4, FsXFS, FsNTFs]"
    by (rule arg_cong [where f = "\<lambda>P. find P [FsExt2, FsExt3, FsExt4, FsXFS, FsNTFs]", symmetric])
  have "bindFS e m lg =
        (case find (Contains ?out) [FsExt2, FsExt3, FsExt4, FsXFS, FsNTFs] of
           Some v \<Rightarrow> (Done None, m\<lparr>fs := v\<rparr>, lg @ [?a])
         | None \<Rightarrow> (Done (Some ErrUnKFs), m, lg @ [?a]))"
    using assms unfolding bindFS_run Let_def by (simp only: if_False simp_thms)
  then show ?thesis
    by (simp only: same)
qed

subsection \<open>The input tuple is a frame of every stage\<close>

lemma bindFS_args: "bindFS e m lg = (r, m', lg') \<Longrightarrow> args m' = args m"
  by (auto simp: bindFS_run Let_def split: if_splits option.splits)

lemma bindCaller_args: "bindCaller m lg = (r, m', lg') \<Longrightarrow> args m' = args m"
  by (auto simp: bindCaller_def split: result.splits)

lemma BindArgs_args: "BindArgs e m lg = (r, m', lg') \<Longrightarrow> args m' = args m"
  unfolding BindArgs_def
  by (auto split: prod.splits result.splits option.splits dest!: bindFS_args bindCaller_args)

lemma changeEXT_args: "changeEXT e m lg = (r, m', lg') \<Longrightarrow> args m' = args m"
  by (auto simp: changeEXT_run Let_def split: if_splits)

lemma changeXFS_args: "changeXFS e m lg = (r, m', lg') \<Longrightarrow> args m' = args m"
  by (auto simp: changeXFS_run Let_def split: if_splits)

lemma ChangeDevUUID_args: "ChangeDevUUID e m lg = (r, m', lg') \<Longrightarrow> args m' = args m"
  unfolding ChangeDevUUID_def changeNTFs_def
  by (auto split: if_splits dest: changeEXT_args changeXFS_args)

lemma MountDevice_args: "MountDevice e m lg = (r, m', lg') \<Longrightarrow> args m' = args m"
  by (auto simp: MountDevice_run Let_def split: if_splits)

lemma Check_args: "Check e m lg = (r, m', lg') \<Longrightarrow> args m' = args m"
  by (auto simp: Check_run Let_def split: if_splits)

lemma Start_args: "Start e m lg = (r, m', lg') \<Longrightarrow> args m' = args m"
proof -
  assume run: "Start e m lg = (r, m', lg')"
  obtain r1 m1 l1 where s1: "BindArgs e m lg = (r1, m1, l1)" by (cases "BindArgs e m lg") auto
  obtain r2 m2 l2 where s2: "ChangeDevUUID e m1 l1 = (r2, m2, l2)"
    by (cases "ChangeDevUUID e m1 l1") auto
  obtain r3 m3 l3 where s3: "MountDevice e m2 l2 = (r3, m3, l3)"
    by (cases "MountDevice e m2 l2") auto
  obtain r4 m4 l4 where s4: "Check e m3 l3 = (r4, m4, l4)" by (cases "Check e m3 l3") auto
  have a1: "args m1 = args m" using s1 by (rule BindArgs_args)
  have a2: "args m2 = args m" using ChangeDevUUID_args [OF s2] a1 by simp
  have a3: "args m3 = args m" using MountDevice_args [OF s3] a2 by simp
  have a4: "args m4 = args m" using Check_args [OF s4] a3 by simp
  have "m' = m1 \<or> m' = m2 \<or> m' = m3 \<or> m' = m4"
    using run unfolding Start_def s1 prod.case
    by (auto simp: s2 s3 s4 split: result.splits option.splits)
  with a1 a2 a3 a4 show ?thesis by auto
qed

lemma same_args:
  fixes m m' :: "'c DevMounter"
  shows "args m' = args m \<Longrightarrow> m' = m\<lparr>caller := caller m', fs := fs m', uuid := uuid m'\<rparr>"
  by (cases m, cases m') simp

subsection \<open>Two more scripted runs\<close>

lemma tuneFails_BindArgs:
  "BindArgs tuneFails sdb1 [] =
     (Done None, sdb1\<lparr>fs := FsExt4, caller := CMount\<rparr>, [[''file'', ''-sL'', ''/dev/sdb1'']])"
  by (simp add: BindArgs_def bindFS_run bindCaller_def GetCallerByFS_def tuneFails_def
        constants reading)

lemma tuneFails_ChangeDevUUID:
  "ChangeDevUUID tuneFails (sdb1\<lparr>fs := FsExt4, caller := CMount\<rparr>) [[''file'', ''-sL'', ''/dev/sdb1'']] =
     (Done (Some ErrGenUUID), sdb1\<lparr>fs := FsExt4, caller := CMount\<rparr>,
      [[''file'', ''-sL'', ''/dev/sdb1''], [''tune2fs'', ''-U'', ''random'', ''/dev/sdb1'']])"
  by (simp add: ChangeDevUUID_def changeEXT_run tuneFails_def constants reading)

lemma mounted_Check:
  "Check (listingIs (ok [''/dev/sdb1 on /mnt/data type ext4 (rw,relatime)'']))
      (sdb1\<lparr>fs := FsExt4, caller := CMount, uuid := ''1234-abcd''\<rparr>)
      [[''file'', ''-sL'', ''/dev/sdb1''], [''tune2fs'', ''-U'', ''random'', ''/dev/sdb1''],
       [''blkid'', ''|'', ''grep'', ''/dev/sdb1''], [''mount'', ''/dev/sdb1'', ''/mnt/data'']] =
     (Done None, sdb1\<lparr>fs := FsExt4, caller := CMount, uuid := ''1234-abcd''\<rparr>,
      [[''file'', ''-sL'', ''/dev/sdb1''], [''tune2fs'', ''-U'', ''random'', ''/dev/sdb1''],
       [''blkid'', ''|'', ''grep'', ''/dev/sdb1''], [''mount'', ''/dev/sdb1'', ''/mnt/data''],
       [''mount'']])"
  by (simp add: Check_run Let_def Contains_iff [symmetric] listingIs_def constants reading)

lemma mounted_Start:
  "Start (listingIs (ok [''/dev/sdb1 on /mnt/data type ext4 (rw,relatime)''])) sdb1 [] =
     (Done None, sdb1\<lparr>fs := FsExt4, caller := CMount, uuid := ''1234-abcd''\<rparr>,
      [[''file'', ''-sL'', ''/dev/sdb1''], [''tune2fs'', ''-U'', ''random'', ''/dev/sdb1''],
       [''blkid'', ''|'', ''grep'', ''/dev/sdb1''], [''mount'', ''/dev/sdb1'', ''/mnt/data''],
       [''mount'']])"
  using Start_reaches_Check [OF listingIs_BindArgs listingIs_ChangeDevUUID listingIs_MountDevice,
      of "ok [''/dev/sdb1 on /mnt/data type ext4 (rw,relatime)'']"]
  by (simp only: mounted_Check)

section \<open>The claims\<close>

text \<open>
  C1. \<^verbatim>\<open>Start\<close> runs \<^verbatim>\<open>BindArgs\<close>, then \<^verbatim>\<open>ChangeDevUUID\<close> on the session and the log that
  \<^verbatim>\<open>BindArgs\<close> left, then \<^verbatim>\<open>MountDevice\<close>, then \<^verbatim>\<open>Check\<close>, each on what the stage before it
  left. The first stage that returns an error ends the run: \<^verbatim>\<open>Start\<close> returns that very
  error with the session and the log of that stage, so no later stage has launched a
  command or written a field. When all four return nil, \<^verbatim>\<open>Start\<close> returns nil.
\<close>

theorem Start_stages_in_order:
  "(BindArgs e m lg = (Done (Some err), m1, l1) \<longrightarrow> Start e m lg = (Done (Some err), m1, l1))
   \<and> (BindArgs e m lg = (Done None, m1, l1) \<and> ChangeDevUUID e m1 l1 = (Done (Some err), m2, l2)
        \<longrightarrow> Start e m lg = (Done (Some err), m2, l2))
   \<and> (BindArgs e m lg = (Done None, m1, l1) \<and> ChangeDevUUID e m1 l1 = (Done None, m2, l2)
        \<and> MountDevice e m2 l2 = (Done (Some err), m3, l3)
        \<longrightarrow> Start e m lg = (Done (Some err), m3, l3))
   \<and> (BindArgs e m lg = (Done None, m1, l1) \<and> ChangeDevUUID e m1 l1 = (Done None, m2, l2)
        \<and> MountDevice e m2 l2 = (Done None, m3, l3) \<and> Check e m3 l3 = (Done (Some err), m4, l4)
        \<longrightarrow> Start e m lg = (Done (Some err), m4, l4))
   \<and> (BindArgs e m lg = (Done None, m1, l1) \<and> ChangeDevUUID e m1 l1 = (Done None, m2, l2)
        \<and> MountDevice e m2 l2 = (Done None, m3, l3) \<and> Check e m3 l3 = (Done None, m4, l4)
        \<longrightarrow> Start e m lg = (Done None, m4, l4))"
  by (simp add: Start_def)

theorem Start_stages_in_order_witness:
  "BindArgs tuneFails sdb1 [] =
     (Done None, sdb1\<lparr>fs := ''ext4'', caller := ''mount''\<rparr>, [[''file'', ''-sL'', ''/dev/sdb1'']])
   \<and> ChangeDevUUID tuneFails (sdb1\<lparr>fs := ''ext4'', caller := ''mount''\<rparr>)
        [[''file'', ''-sL'', ''/dev/sdb1'']] =
     (Done (Some ErrGenUUID), sdb1\<lparr>fs := ''ext4'', caller := ''mount''\<rparr>,
      [[''file'', ''-sL'', ''/dev/sdb1''], [''tune2fs'', ''-U'', ''random'', ''/dev/sdb1'']])
   \<and> Start tuneFails sdb1 [] =
     (Done (Some ErrGenUUID), sdb1\<lparr>fs := ''ext4'', caller := ''mount''\<rparr>,
      [[''file'', ''-sL'', ''/dev/sdb1''], [''tune2fs'', ''-U'', ''random'', ''/dev/sdb1'']])
   \<and> Start (listingIs (ok [''/dev/sdb1 on /mnt/data type ext4 (rw,relatime)''])) sdb1 [] =
     (Done None, sdb1\<lparr>fs := ''ext4'', caller := ''mount'', uuid := ''1234-abcd''\<rparr>,
      [[''file'', ''-sL'', ''/dev/sdb1''], [''tune2fs'', ''-U'', ''random'', ''/dev/sdb1''],
       [''blkid'', ''|'', ''grep'', ''/dev/sdb1''], [''mount'', ''/dev/sdb1'', ''/mnt/data''],
       [''mount'']])"
proof -
  note second = Start_stages_in_order [THEN conjunct2, THEN conjunct1, THEN mp,
      OF conjI [OF tuneFails_BindArgs tuneFails_ChangeDevUUID]]
  note last = Start_stages_in_order [THEN conjunct2, THEN conjunct2, THEN conjunct2, THEN conjunct2,
      THEN mp, OF conjI [OF listingIs_BindArgs conjI [OF listingIs_ChangeDevUUID
        conjI [OF listingIs_MountDevice mounted_Check]]]]
  from tuneFails_BindArgs tuneFails_ChangeDevUUID second last show ?thesis
    by (simp add: constants)
qed

text \<open>
  C2. When the probe \<^verbatim>\<open>file -sL\<close> exits with 0, \<^verbatim>\<open>bindFS\<close> lower-cases its output and takes
  the first of ext2, ext3, ext4, xfs, ntfs, in this order, whose name stands in it; with
  none it returns \<^verbatim>\<open>ErrUnKFs\<close> and leaves the session as it was. So an output that holds
  the name of exactly one of the five sets that type, and an output that holds none
  gives \<^verbatim>\<open>ErrUnKFs\<close>. Lower-casing an output of ASCII bytes keeps its length, raises each
  byte from \<^verbatim>\<open>A\<close> (65) to \<^verbatim>\<open>Z\<close> (90) by 32 and keeps every other byte; an output with a
  byte beyond ASCII is lower-cased by the case table of the library.
\<close>

theorem bindFS_first_match:
  "(exitOf e lg (CFile # ''-sL'' # Fields (dev (args m))) = 0 \<longrightarrow>
      bindFS e m lg =
        (case find (\<lambda>v. substring v (ToLower e (outputOf e lg (CFile # ''-sL'' # Fields (dev (args m))))))
                [FsExt2, FsExt3, FsExt4, FsXFS, FsNTFs] of
           Some v \<Rightarrow> (Done None, m\<lparr>fs := v\<rparr>, lg @ [CFile # ''-sL'' # Fields (dev (args m))])
         | None \<Rightarrow> (Done (Some ErrUnKFs), m, lg @ [CFile # ''-sL'' # Fields (dev (args m))])))
   \<and> (exitOf e lg (CFile # ''-sL'' # Fields (dev (args m))) = 0
      \<and> v \<in> set [FsExt2, FsExt3, FsExt4, FsXFS, FsNTFs]
      \<and> substring v (ToLower e (outputOf e lg (CFile # ''-sL'' # Fields (dev (args m)))))
      \<and> (\<forall>w \<in> set [FsExt2, FsExt3, FsExt4, FsXFS, FsNTFs].
            substring w (ToLower e (outputOf e lg (CFile # ''-sL'' # Fields (dev (args m))))) \<longrightarrow> w = v)
      \<longrightarrow> bindFS e m lg = (Done None, m\<lparr>fs := v\<rparr>, lg @ [CFile # ''-sL'' # Fields (dev (args m))]))
   \<and> (exitOf e lg (CFile # ''-sL'' # Fields (dev (args m))) = 0
      \<and> (\<forall>w \<in> set [FsExt2, FsExt3, FsExt4, FsXFS, FsNTFs].
            \<not> substring w (ToLower e (outputOf e lg (CFile # ''-sL'' # Fields (dev (args m))))))
      \<longrightarrow> bindFS e m lg = (Done (Some ErrUnKFs), m, lg @ [CFile # ''-sL'' # Fields (dev (args m))]))
   \<and> ((\<forall>c \<in> set s. (of_char c :: nat) < 128) \<longrightarrow>
        length (ToLower e s) = length s
        \<and> (\<forall>i < length s.
              (of_char (ToLower e s ! i) :: nat) =
                (if 65 \<le> (of_char (s ! i) :: nat) \<and> (of_char (s ! i) :: nat) \<le> 90
                 then of_char (s ! i) + 32 else of_char (s ! i))))
   \<and> (\<not> (\<forall>c \<in> set s. (of_char c :: nat) < 128) \<longrightarrow> ToLower e s = lowerRunes e s)"
proof -
  let ?a = "CFile # ''-sL'' # Fields (dev (args m))"
  let ?out = "ToLower e (outputOf e lg ?a)"
  let ?types = "[FsExt2, FsExt3, FsExt4, FsXFS, FsNTFs]"
  have one: "bindFS e m lg = (Done None, m\<lparr>fs := v\<rparr>, lg @ [?a])"
    if "exitOf e lg ?a = 0" "v \<in> set ?types" "substring v ?out"
      "\<forall>w \<in> set ?types. substring w ?out \<longrightarrow> w = v"
  proof -
    have "find (\<lambda>v. substring v ?out) ?types = Some v"
      using that(2,3,4) by (rule find_only)
    then show ?thesis
      unfolding bindFS_detects [OF that(1)] by (simp only: option.case)
  qed
  have none: "bindFS e m lg = (Done (Some ErrUnKFs), m, lg @ [?a])"
    if "exitOf e lg ?a = 0" "\<forall>w \<in> set ?types. \<not> substring w ?out"
  proof -
    have "find (\<lambda>v. substring v ?out) ?types = None"
      using that(2) by (rule find_none)
    then show ?thesis
      unfolding bindFS_detects [OF that(1)] by (simp only: option.case)
  qed
  show ?thesis
  proof (intro conjI impI allI)
    assume "exitOf e lg ?a = 0"
    then show "bindFS e m lg =
        (case find (\<lambda>v. substring v ?out) ?types of
           Some v \<Rightarrow> (Done None, m\<lparr>fs := v\<rparr>, lg @ [?a])
         | None \<Rightarrow> (Done (Some ErrUnKFs), m, lg @ [?a]))"
      by (rule bindFS_detects)
  next
    assume h: "exitOf e lg ?a = 0 \<and> v \<in> set ?types \<and> substring v ?out
      \<and> (\<forall>w \<in> set ?types. substring w ?out \<longrightarrow> w = v)"
    show "bindFS e m lg = (Done None, m\<lparr>fs := v\<rparr>, lg @ [?a])"
      by (rule one) (use h in blast)+
  next
    assume h: "exitOf e lg ?a = 0 \<and> (\<forall>w \<in> set ?types. \<not> substring w ?out)"
    show "bindFS e m lg = (Done (Some ErrUnKFs), m, lg @ [?a])"
      by (rule none) (use h in blast)+
  next
    assume "\<forall>c \<in> set s. (of_char c :: nat) < 128"
    then show "length (ToLower e s) = length s"
      by (rule ToLower_ASCII(1))
  next
    fix i
    assume "\<forall>c \<in> set s. (of_char c :: nat) < 128" and "i < length s"
    then show "(of_char (ToLower e s ! i) :: nat) =
        (if 65 \<le> (of_char (s ! i) :: nat) \<and> (of_char (s ! i) :: nat) \<le> 90
         then of_char (s ! i) + 32 else of_char (s ! i))"
      by (rule ToLower_ASCII(2))
  next
    assume "\<not> (\<forall>c \<in> set s. (of_char c :: nat) < 128)"
    then have "\<not> list_all isASCII s"
      by (simp add: list_all_iff isASCII_def)
    then show "ToLower e s = lowerRunes e s"
      by (simp add: ToLower_def)
  qed
qed

theorem bindFS_first_match_witness:
  "exitOf (scripted xfsTable) [] [''file'', ''-sL'', ''/dev/sdb1''] = 0
   \<and> outputOf (scripted xfsTable) [] [''file'', ''-sL'', ''/dev/sdb1''] =
       ''/dev/sdb1: SGI XFS filesystem data (blksz 4096)''
   \<and> bindFS (scripted xfsTable) sdb1 [] =
       (Done None, sdb1\<lparr>fs := ''xfs''\<rparr>, [[''file'', ''-sL'', ''/dev/sdb1'']])
   \<and> bindFS (scripted [([''file'', ''-sL'', ''/dev/sdb1''], ok [''/dev/sdb1: NTFS volume, was XFS''])])
        sdb1 [] =
       (Done None, sdb1\<lparr>fs := ''xfs''\<rparr>, [[''file'', ''-sL'', ''/dev/sdb1'']])
   \<and> bindFS (scripted [([''file'', ''-sL'', ''/dev/sdb1''], ok [''/dev/sdb1: data''])]) sdb1 [] =
       (Done (Some ErrUnKFs), sdb1, [[''file'', ''-sL'', ''/dev/sdb1'']])
   \<and> length (ToLower (scripted xfsTable) ''XFS v5'') = 6
   \<and> (of_char (ToLower (scripted xfsTable) ''XFS v5'' ! 0) :: nat) = of_char (CHR ''x'')
   \<and> (of_char (ToLower (scripted xfsTable) ''XFS v5'' ! 5) :: nat) = of_char (CHR ''5'')
   \<and> ToLower dottedI dottedLine = ''/dev/sdb1: uuid='' @ [quote] @ ''ab'' @ [quote]"
proof -
  let ?a = "CFile # ''-sL'' # Fields (dev (args sdb1))"
  let ?x = "scripted xfsTable"
  let ?n = "scripted [([''file'', ''-sL'', ''/dev/sdb1''], ok [''/dev/sdb1: NTFS volume, was XFS''])]"
  let ?u = "scripted [([''file'', ''-sL'', ''/dev/sdb1''], ok [''/dev/sdb1: data''])]"
  have a: "?a = [''file'', ''-sL'', ''/dev/sdb1'']"
    by (simp add: constants reading)
  have x: "exitOf ?x [] ?a = 0" and n: "exitOf ?n [] ?a = 0" and u: "exitOf ?u [] ?a = 0"
    unfolding a by (simp_all add: constants reading)
  have raw: "outputOf ?x [] ?a = ''/dev/sdb1: SGI XFS filesystem data (blksz 4096)''"
    unfolding a by (simp add: constants reading)
  have ox: "ToLower ?x (outputOf ?x [] ?a) = ''/dev/sdb1: sgi xfs filesystem data (blksz 4096)''"
    unfolding a by (simp add: constants reading)
  have on: "ToLower ?n (outputOf ?n [] ?a) = ''/dev/sdb1: ntfs volume, was xfs''"
    unfolding a by (simp add: constants reading)
  have ou: "ToLower ?u (outputOf ?u [] ?a) = ''/dev/sdb1: data''"
    unfolding a by (simp add: constants reading)
  have in5: "FsXFS \<in> set [FsExt2, FsExt3, FsExt4, FsXFS, FsNTFs]" by simp
  have has: "substring FsXFS (ToLower ?x (outputOf ?x [] ?a))"
    unfolding ox by (simp add: Contains_iff [symmetric] constants)
  have only: "\<forall>w \<in> set [FsExt2, FsExt3, FsExt4, FsXFS, FsNTFs].
      substring w (ToLower ?x (outputOf ?x [] ?a)) \<longrightarrow> w = FsXFS"
    unfolding ox by (simp add: Contains_iff [symmetric] constants)
  have none5: "\<forall>w \<in> set [FsExt2, FsExt3, FsExt4, FsXFS, FsNTFs].
      \<not> substring w (ToLower ?u (outputOf ?u [] ?a))"
    unfolding ou by (simp add: Contains_iff [symmetric] constants)
  have first: "find (\<lambda>v. substring v (ToLower ?n (outputOf ?n [] ?a)))
      [FsExt2, FsExt3, FsExt4, FsXFS, FsNTFs] = Some FsXFS"
    unfolding on by (simp add: Contains_iff [symmetric] constants)
  have r1: "bindFS ?x sdb1 [] = (Done None, sdb1\<lparr>fs := FsXFS\<rparr>, [] @ [?a])"
    by (rule bindFS_first_match [of ?x "[]" sdb1 FsXFS, THEN conjunct2, THEN conjunct1, THEN mp,
          OF conjI [OF x conjI [OF in5 conjI [OF has only]]]])
  have r2: "bindFS ?n sdb1 [] = (Done None, sdb1\<lparr>fs := FsXFS\<rparr>, [] @ [?a])"
    using bindFS_first_match [of ?n "[]" sdb1, THEN conjunct1, THEN mp, OF n]
    by (simp only: first option.case)
  have r3: "bindFS ?u sdb1 [] = (Done (Some ErrUnKFs), sdb1, [] @ [?a])"
    by (rule bindFS_first_match [of ?u "[]" sdb1, THEN conjunct2, THEN conjunct2, THEN conjunct1,
          THEN mp, OF conjI [OF u none5]])
  have ascii: "\<forall>c \<in> set ''XFS v5''. (of_char c :: nat) < 128" by simp
  note low = bindFS_first_match [of ?x _ _ _ "''XFS v5''", THEN conjunct2, THEN conjunct2,
      THEN conjunct2, THEN conjunct1, THEN mp, OF ascii]
  have other: "\<not> (\<forall>c \<in> set dottedLine. (of_char c :: nat) < 128)"
    by (simp add: dottedLine_def)
  from bindFS_first_match [of dottedI _ _ _ dottedLine, THEN conjunct2, THEN conjunct2,
      THEN conjunct2, THEN conjunct2, THEN mp, OF other]
  have l3: "ToLower dottedI dottedLine = ''/dev/sdb1: uuid='' @ [quote] @ ''ab'' @ [quote]"
    by (simp add: dottedI_def scripted_def)
  from low have l0: "length (ToLower ?x ''XFS v5'') = 6" by simp
  from low have l1: "(of_char (ToLower ?x ''XFS v5'' ! 0) :: nat) = of_char (CHR ''x'')"
    and l2: "(of_char (ToLower ?x ''XFS v5'' ! 5) :: nat) = of_char (CHR ''5'')"
    by simp_all
  from x raw r1 r2 r3 l0 l1 l2 l3 show ?thesis
    unfolding a by (simp add: constants)
qed

text \<open>
  C3. \<^verbatim>\<open>changeXFS\<close> launches, in this order, the mount of the device on the path with
  \<^verbatim>\<open>-o rw,nouuid\<close>, the unmount of the device, and \<^verbatim>\<open>xfs_admin -U\<close> with the fresh UUID. A mount
  that exits nonzero ends it with \<^verbatim>\<open>ErrMount\<close> after that one command, an unmount that exits
  nonzero with \<^verbatim>\<open>ErrUMount\<close> after those two, and \<^verbatim>\<open>xfs_admin\<close> exiting nonzero with
  \<^verbatim>\<open>ErrGenUUID\<close>. When it returns \<^verbatim>\<open>ErrMount\<close> or \<^verbatim>\<open>ErrUMount\<close>, no command it launched is
  \<^verbatim>\<open>xfs_admin\<close>.
\<close>

theorem changeXFS_steps:
  "changeXFS e m lg =
     (let c1 = (if fs m = FsNTFs then CNTFs3g else CMount) # ''-o'' # ''rw,nouuid''
                 # Fields (dev (args m)) @ Fields (path (args m));
          c2 = CUMount # Fields (dev (args m));
          c3 = CXFSAdmin # ''-U'' # Fields (uuidNew e lg) @ Fields (dev (args m))
      in if exitOf e lg c1 \<noteq> 0 then (Done (Some ErrMount), m, lg @ [c1])
         else if exitOf e (lg @ [c1]) c2 \<noteq> 0 then (Done (Some ErrUMount), m, lg @ [c1, c2])
         else if exitOf e (lg @ [c1, c2]) c3 \<noteq> 0 then (Done (Some ErrGenUUID), m, lg @ [c1, c2, c3])
         else (Done None, m, lg @ [c1, c2, c3]))
   \<and> (fst (changeXFS e m lg) = Done (Some ErrMount) \<or> fst (changeXFS e m lg) = Done (Some ErrUMount)
        \<longrightarrow> (\<forall>c \<in> set (drop (length lg) (snd (snd (changeXFS e m lg)))). hd c \<noteq> CXFSAdmin))"
proof -
  have tools: "CMount \<noteq> CXFSAdmin" "CNTFs3g \<noteq> CXFSAdmin" "CUMount \<noteq> CXFSAdmin"
    by (simp_all add: constants)
  have "\<forall>c \<in> set (drop (length lg) (snd (snd (changeXFS e m lg)))). hd c \<noteq> CXFSAdmin"
    if "fst (changeXFS e m lg) = Done (Some ErrMount) \<or> fst (changeXFS e m lg) = Done (Some ErrUMount)"
    using that tools by (auto simp: changeXFS_run Let_def split: if_splits)
  then show ?thesis
    using changeXFS_run [of e m lg] by blast
qed

theorem changeXFS_steps_witness:
  "changeXFS nouuidFails (sdb1\<lparr>fs := ''xfs''\<rparr>) [] =
     (Done (Some ErrMount), sdb1\<lparr>fs := ''xfs''\<rparr>,
      [[''mount'', ''-o'', ''rw,nouuid'', ''/dev/sdb1'', ''/mnt/data'']])
   \<and> ''xfs_admin'' \<notin> hd ` set (snd (snd (changeXFS nouuidFails (sdb1\<lparr>fs := ''xfs''\<rparr>) [])))
   \<and> changeXFS (scripted xfsTable) (sdb1\<lparr>fs := ''xfs''\<rparr>) [] =
     (Done None, sdb1\<lparr>fs := ''xfs''\<rparr>,
      [[''mount'', ''-o'', ''rw,nouuid'', ''/dev/sdb1'', ''/mnt/data''], [''umount'', ''/dev/sdb1''],
       [''xfs_admin'', ''-U'', ''0b6a3c1e-5d2f-4e8a-9c47-1f2e3d4c5b6a'', ''/dev/sdb1'']])"
proof -
  let ?m = "sdb1\<lparr>fs := FsXFS\<rparr>"
  note inst = changeXFS_steps [of nouuidFails ?m "[]"]
  have a: "changeXFS nouuidFails ?m [] =
     (Done (Some ErrMount), ?m, [[''mount'', ''-o'', ''rw,nouuid'', ''/dev/sdb1'', ''/mnt/data'']])"
    using inst [THEN conjunct1] by (simp add: nouuidFails_def constants reading)
  then have "fst (changeXFS nouuidFails ?m []) = Done (Some ErrMount)" by simp
  with inst [THEN conjunct2]
  have "\<forall>c \<in> set (drop (length ([] :: log)) (snd (snd (changeXFS nouuidFails ?m [])))). hd c \<noteq> CXFSAdmin"
    by blast
  then have b: "CXFSAdmin \<notin> hd ` set (snd (snd (changeXFS nouuidFails ?m [])))"
    by auto
  have c: "changeXFS (scripted xfsTable) ?m [] =
     (Done None, ?m,
      [[''mount'', ''-o'', ''rw,nouuid'', ''/dev/sdb1'', ''/mnt/data''], [''umount'', ''/dev/sdb1''],
       [''xfs_admin'', ''-U'', ''0b6a3c1e-5d2f-4e8a-9c47-1f2e3d4c5b6a'', ''/dev/sdb1'']])"
    using changeXFS_steps [of "scripted xfsTable" ?m "[]", THEN conjunct1]
    by (simp add: constants reading)
  from a b c show ?thesis by (simp add: constants)
qed

text \<open>
  C4, as the code has it. \<^verbatim>\<open>changeEXT\<close> launches \<^verbatim>\<open>tune2fs -U random\<close> and, only when that exits
  with 0, the query \<^verbatim>\<open>blkid\<close>. A failed \<^verbatim>\<open>tune2fs\<close> gives \<^verbatim>\<open>ErrGenUUID\<close> with no query
  launched; a query that exits nonzero, or whose lower-cased output has no match of the
  pattern, gives \<^verbatim>\<open>ErrQueryUUID\<close>; otherwise the session records the group of the match.
  The pattern has no match exactly when no \<^verbatim>\<open>uuid="\<close> in the output is followed by a
  closing quote on its line; the recorded group stands in the output between \<^verbatim>\<open>uuid="\<close> and
  a quote and holds neither a quote nor a newline. It can be empty.
\<close>

theorem changeEXT_steps:
  "changeEXT e m lg =
     (let c1 = CTune2FS # ''-U'' # ''random'' # Fields (dev (args m));
          c2 = CBlkID # ''|'' # ''grep'' # Fields (dev (args m));
          us = FindStringSubmatch (ToLower e (outputOf e (lg @ [c1]) c2))
      in if exitOf e lg c1 \<noteq> 0 then (Done (Some ErrGenUUID), m, lg @ [c1])
         else if exitOf e (lg @ [c1]) c2 \<noteq> 0 \<or> us = []
              then (Done (Some ErrQueryUUID), m\<lparr>uuid := []\<rparr>, lg @ [c1, c2])
         else (Done None, m\<lparr>uuid := us ! 1\<rparr>, lg @ [c1, c2]))
   \<and> (FindStringSubmatch out = [] \<longleftrightarrow>
        \<not> (\<exists>a g b. out = a @ uuidOpen @ g @ quote # b \<and> newline \<notin> set g))
   \<and> (FindStringSubmatch out \<noteq> [] \<longrightarrow>
        substring (uuidOpen @ FindStringSubmatch out ! 1 @ [quote]) out
        \<and> quote \<notin> set (FindStringSubmatch out ! 1) \<and> newline \<notin> set (FindStringSubmatch out ! 1))"
proof -
  have run: "changeEXT e m lg =
     (let c1 = CTune2FS # ''-U'' # ''random'' # Fields (dev (args m));
          c2 = CBlkID # ''|'' # ''grep'' # Fields (dev (args m));
          us = FindStringSubmatch (ToLower e (outputOf e (lg @ [c1]) c2))
      in if exitOf e lg c1 \<noteq> 0 then (Done (Some ErrGenUUID), m, lg @ [c1])
         else if exitOf e (lg @ [c1]) c2 \<noteq> 0 \<or> us = []
              then (Done (Some ErrQueryUUID), m\<lparr>uuid := []\<rparr>, lg @ [c1, c2])
         else (Done None, m\<lparr>uuid := us ! 1\<rparr>, lg @ [c1, c2]))"
    by (simp add: changeEXT_run FindStringSubmatch_length Let_def)
  have none: "FindStringSubmatch out = [] \<longleftrightarrow>
        \<not> (\<exists>a g b. out = a @ uuidOpen @ g @ quote # b \<and> newline \<notin> set g)"
  proof
    assume "FindStringSubmatch out = []"
    then show "\<not> (\<exists>a g b. out = a @ uuidOpen @ g @ quote # b \<and> newline \<notin> set g)"
      using FindStringSubmatch_none by blast
  next
    assume no: "\<not> (\<exists>a g b. out = a @ uuidOpen @ g @ quote # b \<and> newline \<notin> set g)"
    show "FindStringSubmatch out = []"
    proof (rule ccontr)
      assume "FindStringSubmatch out \<noteq> []"
      from FindStringSubmatch_match [OF this] obtain g a b where
        "out = a @ (uuidOpen @ g @ [quote]) @ b" "newline \<notin> set g"
        unfolding substring_def by blast
      then have "out = a @ uuidOpen @ g @ quote # b \<and> newline \<notin> set g" by simp
      with no show False by blast
    qed
  qed
  have some: "substring (uuidOpen @ FindStringSubmatch out ! 1 @ [quote]) out
        \<and> quote \<notin> set (FindStringSubmatch out ! 1) \<and> newline \<notin> set (FindStringSubmatch out ! 1)"
    if "FindStringSubmatch out \<noteq> []"
    using FindStringSubmatch_match [OF that] by auto
  from run none some show ?thesis by blast
qed

theorem changeEXT_steps_witness:
  "changeEXT (scripted ext4Table) sdb1 [] =
     (Done None, sdb1\<lparr>uuid := ''1234-abcd''\<rparr>,
      [[''tune2fs'', ''-U'', ''random'', ''/dev/sdb1''], [''blkid'', ''|'', ''grep'', ''/dev/sdb1'']])
   \<and> changeEXT tuneFails sdb1 [] =
     (Done (Some ErrGenUUID), sdb1, [[''tune2fs'', ''-U'', ''random'', ''/dev/sdb1'']])
   \<and> changeEXT dottedI sdb1 [] =
     (Done None, sdb1\<lparr>uuid := ''ab''\<rparr>,
      [[''tune2fs'', ''-U'', ''random'', ''/dev/sdb1''], [''blkid'', ''|'', ''grep'', ''/dev/sdb1'']])
   \<and> FindStringSubmatch (''uuid='' @ [quote] @ ''1234-abcd'' @ [quote]) \<noteq> []
   \<and> substring (uuidOpen @ FindStringSubmatch (''uuid='' @ [quote] @ ''1234-abcd'' @ [quote]) ! 1 @ [quote])
        (''uuid='' @ [quote] @ ''1234-abcd'' @ [quote])"
proof -
  have a: "changeEXT (scripted ext4Table) sdb1 [] =
     (Done None, sdb1\<lparr>uuid := ''1234-abcd''\<rparr>,
      [[''tune2fs'', ''-U'', ''random'', ''/dev/sdb1''], [''blkid'', ''|'', ''grep'', ''/dev/sdb1'']])"
    using changeEXT_steps [of "scripted ext4Table" sdb1 "[]", THEN conjunct1]
    by (simp add: uuidOpen_def constants reading)
  have b: "changeEXT tuneFails sdb1 [] =
     (Done (Some ErrGenUUID), sdb1, [[''tune2fs'', ''-U'', ''random'', ''/dev/sdb1'']])"
    using changeEXT_steps [of tuneFails sdb1 "[]", THEN conjunct1]
    by (simp add: tuneFails_def constants reading)
  have b': "changeEXT dottedI sdb1 [] =
     (Done None, sdb1\<lparr>uuid := ''ab''\<rparr>,
      [[''tune2fs'', ''-U'', ''random'', ''/dev/sdb1''], [''blkid'', ''|'', ''grep'', ''/dev/sdb1'']])"
    using changeEXT_steps [of dottedI sdb1 "[]", THEN conjunct1]
    by (simp add: dottedI_def dottedLine_def uuidOpen_def constants reading)
  let ?out = "''uuid='' @ [quote] @ ''1234-abcd'' @ [quote]"
  have c: "FindStringSubmatch ?out \<noteq> []"
    by (simp add: uuidOpen_def constants)
  from changeEXT_steps [of _ _ _ ?out, THEN conjunct2, THEN conjunct2] c
  have d: "substring (uuidOpen @ FindStringSubmatch ?out ! 1 @ [quote]) ?out" by blast
  from a b b' c d show ?thesis by blast
qed

text \<open>
  C4 as it is written fails: \<^verbatim>\<open>tune2fs\<close> and \<^verbatim>\<open>blkid\<close> exit with 0 and \<^verbatim>\<open>blkid\<close> prints
  \<^verbatim>\<open>/dev/sdb1: UUID="" TYPE="ext4"\<close>; \<^verbatim>\<open>changeEXT\<close> returns nil and the recorded UUID is
  the empty string.
\<close>

theorem changeEXT_empty_uuid_counterexample:
  "changeEXT emptyUUID sdb1 [] =
     (Done None, sdb1\<lparr>uuid := []\<rparr>,
      [[''tune2fs'', ''-U'', ''random'', ''/dev/sdb1''], [''blkid'', ''|'', ''grep'', ''/dev/sdb1'']])
   \<and> uuid (fst (snd (changeEXT emptyUUID sdb1 []))) = []"
proof -
  have "changeEXT emptyUUID sdb1 [] =
     (Done None, sdb1\<lparr>uuid := []\<rparr>,
      [[''tune2fs'', ''-U'', ''random'', ''/dev/sdb1''], [''blkid'', ''|'', ''grep'', ''/dev/sdb1'']])"
    by (simp add: changeEXT_run emptyUUID_def uuidOpen_def constants reading)
  then show ?thesis by simp
qed

text \<open>
  C5, as the code has it. \<^verbatim>\<open>IsMount\<close> launches the listing once and, when it exits with 0,
  returns true exactly when the queried string, with one space after it, stands somewhere
  in the output. What stands before the occurrence is not examined: a query that is the
  end of a longer path matches too. A nonzero exit is a panic.
\<close>

theorem IsMount_space_after:
  "IsMount e p lg =
     (if exitOf e lg [CMount] \<noteq> 0 then (Panicked (PanicCaller CMount), lg @ [[CMount]])
      else (Done (substring (p @ '' '') (outputOf e lg [CMount])), lg @ [[CMount]]))"
  by (simp add: IsMount_run Contains_iff)

theorem IsMount_space_after_witness:
  "IsMount (scripted ext4Table) ''/dev/sdb1'' [] = (Done True, [[''mount'']])
   \<and> IsMount (scripted ext4Table) ''/dev/sdb'' [] = (Done False, [[''mount'']])"
  using IsMount_space_after [of "scripted ext4Table" "''/dev/sdb1''" "[]"]
    IsMount_space_after [of "scripted ext4Table" "''/dev/sdb''" "[]"]
  by (simp add: Contains_iff [symmetric] constants reading)

text \<open>
  C5 as it is written fails: the listing has the one entry
  \<^verbatim>\<open>/dev/sdc1 on /data/mnt/a type ext4 (rw,relatime)\<close>, the query \<^verbatim>\<open>/mnt/a\<close> is none of its
  tokens, only the end of the longer path \<^verbatim>\<open>/data/mnt/a\<close>, and \<^verbatim>\<open>IsMount\<close> returns true.
\<close>

theorem IsMount_whole_token_counterexample:
  "fst (IsMount (listingIs (ok [''/dev/sdc1 on /data/mnt/a type ext4 (rw,relatime)''])) ''/mnt/a'' [])
     = Done True
   \<and> ''/mnt/a'' \<notin> set (Fields ''/dev/sdc1 on /data/mnt/a type ext4 (rw,relatime)'')"
  by (simp add: IsMount_run listingIs_def constants reading)

text \<open>
  C6 does not hold of the code. On a nonzero exit \<^verbatim>\<open>bindFS\<close> returns \<^verbatim>\<open>err_\<close>, the error of
  the process library, and that is nil when the command ran and exited nonzero. Here
  \<^verbatim>\<open>file -sL /dev/sdb1\<close> exits with 1: \<^verbatim>\<open>bindFS\<close> returns nil with the type unset, and
  \<^verbatim>\<open>BindArgs\<close> goes on to \<^verbatim>\<open>bindCaller\<close>, which panics with \<^verbatim>\<open>ErrUnsFs\<close> on the empty type.
\<close>

theorem bindFS_nonzero_exit_returns_nil:
  "exitOf probeFails [] [''file'', ''-sL'', ''/dev/sdb1''] = 1
   \<and> errorOf probeFails [] [''file'', ''-sL'', ''/dev/sdb1''] = None
   \<and> bindFS probeFails sdb1 [] = (Done None, sdb1, [[''file'', ''-sL'', ''/dev/sdb1'']])
   \<and> BindArgs probeFails sdb1 [] =
       (Panicked (PanicError ErrUnsFs), sdb1, [[''file'', ''-sL'', ''/dev/sdb1'']])"
proof -
  have x: "exitOf probeFails [] [''file'', ''-sL'', ''/dev/sdb1''] = 1"
    and n: "errorOf probeFails [] [''file'', ''-sL'', ''/dev/sdb1''] = None"
    by (simp_all add: probeFails_def constants reading)
  have c: "CFile # ''-sL'' # Fields (dev (args sdb1)) = [''file'', ''-sL'', ''/dev/sdb1'']"
    by (simp add: constants reading)
  have a: "bindFS probeFails sdb1 [] = (Done None, sdb1, [[''file'', ''-sL'', ''/dev/sdb1'']])"
    unfolding bindFS_run Let_def c by (simp add: x n)
  have b: "GetCallerByFS (fs sdb1) = Panicked (PanicError ErrUnsFs)"
    by (simp add: GetCallerByFS_def sdb1_def NewMounterWithArgs_def constants)
  have "BindArgs probeFails sdb1 [] =
       (Panicked (PanicError ErrUnsFs), sdb1, [[''file'', ''-sL'', ''/dev/sdb1'']])"
    unfolding BindArgs_def a by (simp add: bindCaller_def b)
  with x n a show ?thesis by (intro conjI)
qed

text \<open>
  C7. The tool of a filesystem type: \<^verbatim>\<open>GetCallerByFS\<close> gives \<^verbatim>\<open>mount\<close> for ext2, ext3, ext4 and
  xfs, \<^verbatim>\<open>ntfs-3g\<close> for ntfs, and panics with \<^verbatim>\<open>ErrUnsFs\<close> on every other value. \<^verbatim>\<open>Mount\<close>
  launches one command, whose program is \<^verbatim>\<open>ntfs-3g\<close> for ntfs and \<^verbatim>\<open>mount\<close> otherwise; wherever
  \<^verbatim>\<open>GetCallerByFS\<close> returns a tool, it is the program \<^verbatim>\<open>Mount\<close> launches.
\<close>

theorem GetCallerByFS_total:
  "(f \<in> {FsExt2, FsExt3, FsExt4, FsXFS} \<longrightarrow> GetCallerByFS f = Done CMount)
   \<and> GetCallerByFS FsNTFs = Done CNTFs3g
   \<and> (f \<notin> {FsExt2, FsExt3, FsExt4, FsXFS, FsNTFs} \<longrightarrow>
        GetCallerByFS f = Panicked (PanicError ErrUnsFs))
   \<and> snd (Mount e f d p c lg) =
        lg @ [(if f = FsNTFs then CNTFs3g else CMount) # Fields c @ Fields d @ Fields p]
   \<and> (GetCallerByFS f = Done t \<longrightarrow> hd (last (snd (Mount e f d p c lg))) = t)"
proof -
  have ntfs: "FsNTFs \<noteq> FsExt2" "FsNTFs \<noteq> FsExt3" "FsNTFs \<noteq> FsExt4" "FsNTFs \<noteq> FsXFS"
    by (simp_all add: FsNTFs_def FsExt2_def FsExt3_def FsExt4_def FsXFS_def)
  have launched: "snd (Mount e f d p c lg) =
      lg @ [(if f = FsNTFs then CNTFs3g else CMount) # Fields c @ Fields d @ Fields p]"
    by (simp add: Mount_run Let_def)
  have agree: "hd (last (snd (Mount e f d p c lg))) = t" if "GetCallerByFS f = Done t"
    using that ntfs unfolding launched by (auto simp: GetCallerByFS_def split: if_splits)
  show ?thesis
    using ntfs launched agree by (simp add: GetCallerByFS_def)
qed

theorem GetCallerByFS_total_witness:
  "FsExt4 \<in> {FsExt2, FsExt3, FsExt4, FsXFS} \<and> GetCallerByFS FsExt4 = Done ''mount''
   \<and> GetCallerByFS ''ntfs'' = Done ''ntfs-3g''
   \<and> ''jfs'' \<notin> {FsExt2, FsExt3, FsExt4, FsXFS, FsNTFs}
   \<and> GetCallerByFS ''jfs'' = Panicked (PanicError ErrUnsFs)
   \<and> snd (Mount (scripted ext4Table) FsExt4 ''/dev/sdb1'' ''/mnt/data'' [] []) =
       [[''mount'', ''/dev/sdb1'', ''/mnt/data'']]
   \<and> hd (last (snd (Mount (scripted ext4Table) FsExt4 ''/dev/sdb1'' ''/mnt/data'' [] []))) = ''mount''"
proof -
  have in4: "FsExt4 \<in> {FsExt2, FsExt3, FsExt4, FsXFS}" by simp
  have out5: "''jfs'' \<notin> {FsExt2, FsExt3, FsExt4, FsXFS, FsNTFs}" by (simp add: constants)
  note inst = GetCallerByFS_total [of FsExt4 "scripted ext4Table" "''/dev/sdb1''" "''/mnt/data''" "[]" "[]" CMount]
  note inst' = GetCallerByFS_total [of "''jfs''"]
  from inst in4 have a: "GetCallerByFS FsExt4 = Done CMount" by blast
  from inst have b: "GetCallerByFS FsNTFs = Done CNTFs3g" by blast
  from inst' out5 have c: "GetCallerByFS ''jfs'' = Panicked (PanicError ErrUnsFs)" by blast
  from inst have d: "snd (Mount (scripted ext4Table) FsExt4 ''/dev/sdb1'' ''/mnt/data'' [] []) =
       [] @ [(if FsExt4 = FsNTFs then CNTFs3g else CMount) # Fields [] @ Fields ''/dev/sdb1'' @ Fields ''/mnt/data'']"
    by blast
  from inst a have e: "hd (last (snd (Mount (scripted ext4Table) FsExt4 ''/dev/sdb1'' ''/mnt/data'' [] []))) = CMount"
    by blast
  have d': "snd (Mount (scripted ext4Table) FsExt4 ''/dev/sdb1'' ''/mnt/data'' [] []) =
       [[''mount'', ''/dev/sdb1'', ''/mnt/data'']]"
    unfolding d by (simp add: constants Fields_def spaces_def)
  show ?thesis
    using in4 out5 a b c d' e by (simp add: constants)
qed

text \<open>
  C8, as the code has it. \<^verbatim>\<open>Check\<close> asks \<^verbatim>\<open>IsMount\<close> for the device and, only when that
  reports false, for the mount path, each on a listing of its own. It returns nil as
  soon as one reports true, which is when the query with a space after it stands
  somewhere in the listing; when both listings exit with 0 and neither holds its query
  with a space after it, it returns \<^verbatim>\<open>ErrMount\<close>. So a run whose earlier stages all
  succeeded, the mount command having exited with 0, fails with \<^verbatim>\<open>ErrMount\<close> at this stage
  when neither listing holds the device or the path with a space after it.
\<close>

theorem Check_either_mounted:
  "Check e m lg =
     (let l1 = lg @ [[CMount]]; l2 = l1 @ [[CMount]]
      in if exitOf e lg [CMount] \<noteq> 0 then (Panicked (PanicCaller CMount), m, l1)
         else if substring (dev (args m) @ '' '') (outputOf e lg [CMount]) then (Done None, m, l1)
         else if exitOf e l1 [CMount] \<noteq> 0 then (Panicked (PanicCaller CMount), m, l2)
         else if substring (path (args m) @ '' '') (outputOf e l1 [CMount]) then (Done None, m, l2)
         else (Done (Some ErrMount), m, l2))
   \<and> (BindArgs e m0 lg0 = (Done None, m1, lg1) \<and> ChangeDevUUID e m1 lg1 = (Done None, m2, lg2)
      \<and> MountDevice e m2 lg2 = (Done None, m, lg)
      \<and> exitOf e lg [CMount] = 0 \<and> exitOf e (lg @ [[CMount]]) [CMount] = 0
      \<and> \<not> substring (dev (args m) @ '' '') (outputOf e lg [CMount])
      \<and> \<not> substring (path (args m) @ '' '') (outputOf e (lg @ [[CMount]]) [CMount])
      \<longrightarrow> Start e m0 lg0 = (Done (Some ErrMount), m, lg @ [[CMount], [CMount]]))"
proof -
  have "Start e m0 lg0 = (Done (Some ErrMount), m, lg @ [[CMount], [CMount]])"
    if "BindArgs e m0 lg0 = (Done None, m1, lg1)" "ChangeDevUUID e m1 lg1 = (Done None, m2, lg2)"
      "MountDevice e m2 lg2 = (Done None, m, lg)"
      "exitOf e lg [CMount] = 0" "exitOf e (lg @ [[CMount]]) [CMount] = 0"
      "\<not> substring (dev (args m) @ '' '') (outputOf e lg [CMount])"
      "\<not> substring (path (args m) @ '' '') (outputOf e (lg @ [[CMount]]) [CMount])"
    using Start_reaches_Check [OF that(1,2,3)] that(4-7) by (simp add: Check_run Let_def)
  then show ?thesis
    using Check_run [of e m lg] by blast
qed

theorem Check_either_mounted_witness:
  "Start (listingIs (ok [''/dev/sda1 on / type ext4 (rw,relatime)''])) sdb1 [] =
     (Done (Some ErrMount), sdb1\<lparr>fs := ''ext4'', caller := ''mount'', uuid := ''1234-abcd''\<rparr>,
      [[''file'', ''-sL'', ''/dev/sdb1''], [''tune2fs'', ''-U'', ''random'', ''/dev/sdb1''],
       [''blkid'', ''|'', ''grep'', ''/dev/sdb1''], [''mount'', ''/dev/sdb1'', ''/mnt/data''],
       [''mount''], [''mount'']])
   \<and> Check (scripted ext4Table) sdb1 [] = (Done None, sdb1, [[''mount'']])"
proof -
  let ?e = "listingIs (ok [''/dev/sda1 on / type ext4 (rw,relatime)''])"
  let ?m = "sdb1\<lparr>fs := FsExt4, caller := CMount, uuid := ''1234-abcd''\<rparr>"
  let ?lg = "[[''file'', ''-sL'', ''/dev/sdb1''], [''tune2fs'', ''-U'', ''random'', ''/dev/sdb1''],
       [''blkid'', ''|'', ''grep'', ''/dev/sdb1''], [''mount'', ''/dev/sdb1'', ''/mnt/data'']]"
  have x1: "exitOf ?e ?lg [CMount] = 0" and x2: "exitOf ?e (?lg @ [[CMount]]) [CMount] = 0"
    by (simp_all add: listingIs_def constants reading)
  have n1: "\<not> substring (dev (args ?m) @ '' '') (outputOf ?e ?lg [CMount])"
    by (simp add: Contains_iff [symmetric] listingIs_def constants reading)
  have n2: "\<not> substring (path (args ?m) @ '' '') (outputOf ?e (?lg @ [[CMount]]) [CMount])"
    by (simp add: Contains_iff [symmetric] listingIs_def constants reading)
  have "Start ?e sdb1 [] = (Done (Some ErrMount), ?m, ?lg @ [[CMount], [CMount]])"
    using Check_either_mounted [of ?e ?m ?lg sdb1 "[]" _ _ _ _]
      listingIs_BindArgs [of "ok [''/dev/sda1 on / type ext4 (rw,relatime)'']"]
      listingIs_ChangeDevUUID [of "ok [''/dev/sda1 on / type ext4 (rw,relatime)'']"]
      listingIs_MountDevice [of "ok [''/dev/sda1 on / type ext4 (rw,relatime)'']"] x1 x2 n1 n2
    by blast
  moreover have "Check (scripted ext4Table) sdb1 [] = (Done None, sdb1, [[''mount'']])"
    using Check_either_mounted [of "scripted ext4Table" sdb1 "[]"]
    by (simp add: Contains_iff [symmetric] Let_def constants reading)
  ultimately show ?thesis by (simp add: constants)
qed

text \<open>
  C8 as it is written fails twice. The listing has the one entry
  \<^verbatim>\<open>/dev/sdc1 on /data/mnt/data type ext4 (rw,relatime)\<close>: neither the device \<^verbatim>\<open>/dev/sdb1\<close> nor
  the path \<^verbatim>\<open>/mnt/data\<close> is one of its tokens, yet \<^verbatim>\<open>Check\<close> returns nil, and so does \<^verbatim>\<open>Start\<close>,
  because \<^verbatim>\<open>/mnt/data\<close> ends the longer path. And where the listing shows the device, \<^verbatim>\<open>Check\<close>
  launches one listing only: the path is not asked for.
\<close>

theorem Check_not_an_entry_counterexample:
  "Check (listingIs (ok [''/dev/sdc1 on /data/mnt/data type ext4 (rw,relatime)''])) sdb1 [] =
     (Done None, sdb1, [[''mount''], [''mount'']])
   \<and> ''/dev/sdb1'' \<notin> set (Fields ''/dev/sdc1 on /data/mnt/data type ext4 (rw,relatime)'')
   \<and> ''/mnt/data'' \<notin> set (Fields ''/dev/sdc1 on /data/mnt/data type ext4 (rw,relatime)'')
   \<and> fst (Start (listingIs (ok [''/dev/sdc1 on /data/mnt/data type ext4 (rw,relatime)''])) sdb1 [])
       = Done None
   \<and> Check (scripted ext4Table) sdb1 [] = (Done None, sdb1, [[''mount'']])"
proof -
  let ?s = "ok [''/dev/sdc1 on /data/mnt/data type ext4 (rw,relatime)'']"
  have a: "Check (listingIs ?s) sdb1 [] = (Done None, sdb1, [[''mount''], [''mount'']])"
    by (simp add: Check_run Let_def Contains_iff [symmetric] listingIs_def constants reading)
  have b: "''/dev/sdb1'' \<notin> set (Fields ''/dev/sdc1 on /data/mnt/data type ext4 (rw,relatime)'')"
    and c: "''/mnt/data'' \<notin> set (Fields ''/dev/sdc1 on /data/mnt/data type ext4 (rw,relatime)'')"
    by (simp_all add: Fields_def spaces_def)
  have "fst (Check (listingIs ?s) (sdb1\<lparr>fs := FsExt4, caller := CMount, uuid := ''1234-abcd''\<rparr>)
      [[''file'', ''-sL'', ''/dev/sdb1''], [''tune2fs'', ''-U'', ''random'', ''/dev/sdb1''],
       [''blkid'', ''|'', ''grep'', ''/dev/sdb1''], [''mount'', ''/dev/sdb1'', ''/mnt/data'']]) = Done None"
    by (simp add: Check_run Let_def Contains_iff [symmetric] listingIs_def constants reading)
  then have d: "fst (Start (listingIs ?s) sdb1 []) = Done None"
    by (simp only: Start_reaches_Check [OF listingIs_BindArgs listingIs_ChangeDevUUID
          listingIs_MountDevice, of ?s])
  have e: "Check (scripted ext4Table) sdb1 [] = (Done None, sdb1, [[''mount'']])"
    by (simp add: Check_run Let_def Contains_iff [symmetric] constants reading)
  from a b c d e show ?thesis by (intro conjI)
qed

text \<open>
  C9. When the listing exits nonzero, \<^verbatim>\<open>IsMount\<close> returns nothing: it panics with the value
  \<^verbatim>\<open>CMount\<close>. \<^verbatim>\<open>Check\<close> has no recover, so it panics with it, on the first listing or, when
  the device was not shown, on the second; and so does \<^verbatim>\<open>Start\<close> when the first three stages
  have succeeded.
\<close>

theorem IsMount_listing_fails_panic:
  "(exitOf e lg [CMount] \<noteq> 0 \<longrightarrow>
      IsMount e p lg = (Panicked (PanicCaller CMount), lg @ [[CMount]])
      \<and> Check e m lg = (Panicked (PanicCaller CMount), m, lg @ [[CMount]]))
   \<and> (exitOf e lg [CMount] = 0 \<and> \<not> substring (dev (args m) @ '' '') (outputOf e lg [CMount])
      \<and> exitOf e (lg @ [[CMount]]) [CMount] \<noteq> 0 \<longrightarrow>
      Check e m lg = (Panicked (PanicCaller CMount), m, lg @ [[CMount], [CMount]]))
   \<and> (BindArgs e m0 lg0 = (Done None, m1, lg1) \<and> ChangeDevUUID e m1 lg1 = (Done None, m2, lg2)
      \<and> MountDevice e m2 lg2 = (Done None, m, lg) \<and> exitOf e lg [CMount] \<noteq> 0 \<longrightarrow>
      Start e m0 lg0 = (Panicked (PanicCaller CMount), m, lg @ [[CMount]]))"
proof -
  have "Start e m0 lg0 = (Panicked (PanicCaller CMount), m, lg @ [[CMount]])"
    if "BindArgs e m0 lg0 = (Done None, m1, lg1)" "ChangeDevUUID e m1 lg1 = (Done None, m2, lg2)"
      "MountDevice e m2 lg2 = (Done None, m, lg)" "exitOf e lg [CMount] \<noteq> 0"
    using Start_reaches_Check [OF that(1,2,3)] that(4) by (simp add: Check_run Let_def)
  then show ?thesis
    by (simp add: IsMount_run Check_run Let_def)
qed

theorem IsMount_listing_fails_panic_witness:
  "exitOf (listingIs (exited 32)) [] [''mount''] = 32
   \<and> IsMount (listingIs (exited 32)) ''/dev/sdb1'' [] = (Panicked (PanicCaller ''mount''), [[''mount'']])
   \<and> Check (listingIs (exited 32)) sdb1 [] = (Panicked (PanicCaller ''mount''), sdb1, [[''mount'']])
   \<and> Start (listingIs (exited 32)) sdb1 [] =
     (Panicked (PanicCaller ''mount''),
      sdb1\<lparr>fs := ''ext4'', caller := ''mount'', uuid := ''1234-abcd''\<rparr>,
      [[''file'', ''-sL'', ''/dev/sdb1''], [''tune2fs'', ''-U'', ''random'', ''/dev/sdb1''],
       [''blkid'', ''|'', ''grep'', ''/dev/sdb1''], [''mount'', ''/dev/sdb1'', ''/mnt/data''],
       [''mount'']])"
proof -
  let ?e = "listingIs (exited 32)"
  let ?m = "sdb1\<lparr>fs := FsExt4, caller := CMount, uuid := ''1234-abcd''\<rparr>"
  let ?lg = "[[''file'', ''-sL'', ''/dev/sdb1''], [''tune2fs'', ''-U'', ''random'', ''/dev/sdb1''],
       [''blkid'', ''|'', ''grep'', ''/dev/sdb1''], [''mount'', ''/dev/sdb1'', ''/mnt/data'']]"
  have x0: "exitOf ?e [] [CMount] = 32" and x1: "exitOf ?e ?lg [CMount] = 32"
    by (simp_all add: listingIs_def constants reading)
  have a: "IsMount ?e ''/dev/sdb1'' [] = (Panicked (PanicCaller CMount), [] @ [[CMount]])"
    and b: "Check ?e sdb1 [] = (Panicked (PanicCaller CMount), sdb1, [] @ [[CMount]])"
    using IsMount_listing_fails_panic [of ?e "[]" "''/dev/sdb1''" sdb1] x0 by simp_all
  have "Start ?e sdb1 [] = (Panicked (PanicCaller CMount), ?m, ?lg @ [[CMount]])"
    using IsMount_listing_fails_panic [of ?e ?lg _ ?m sdb1 "[]"]
      listingIs_BindArgs [of "exited 32"] listingIs_ChangeDevUUID [of "exited 32"]
      listingIs_MountDevice [of "exited 32"] x1
    by simp
  with a b x0 show ?thesis by (simp add: constants)
qed

text \<open>
  C10. The constructor stores the device, the path and the context, and no stage writes
  them: the session that \<^verbatim>\<open>BindArgs\<close>, \<^verbatim>\<open>ChangeDevUUID\<close>, \<^verbatim>\<open>MountDevice\<close>, \<^verbatim>\<open>Check\<close> or \<^verbatim>\<open>Start\<close>
  leaves, whether it returned or panicked, has the input tuple it was given. The session
  after \<^verbatim>\<open>Start\<close> differs from the one before in the tool, the type and the UUID at most.
\<close>

theorem Start_keeps_args:
  fixes m :: "'c DevMounter" and c :: 'c
  shows "args (NewMounterWithArgs d p c) = \<lparr>dev = d, path = p, ctx = c\<rparr>
   \<and> args (fst (snd (BindArgs e m lg))) = args m
   \<and> args (fst (snd (ChangeDevUUID e m lg))) = args m
   \<and> args (fst (snd (MountDevice e m lg))) = args m
   \<and> args (fst (snd (Check e m lg))) = args m
   \<and> args (fst (snd (Start e (NewMounterWithArgs d p c) lg))) = \<lparr>dev = d, path = p, ctx = c\<rparr>
   \<and> fst (snd (Start e m lg)) =
       m\<lparr>caller := caller (fst (snd (Start e m lg))), fs := fs (fst (snd (Start e m lg))),
         uuid := uuid (fst (snd (Start e m lg)))\<rparr>"
proof -
  have new: "args (NewMounterWithArgs d p c) = \<lparr>dev = d, path = p, ctx = c\<rparr>"
    by (simp add: NewMounterWithArgs_def)
  have s1: "args (fst (snd (BindArgs e m lg))) = args m"
    by (rule BindArgs_args [of e m lg "fst (BindArgs e m lg)" _ "snd (snd (BindArgs e m lg))"]) simp
  have s2: "args (fst (snd (ChangeDevUUID e m lg))) = args m"
    by (rule ChangeDevUUID_args [of e m lg "fst (ChangeDevUUID e m lg)" _
          "snd (snd (ChangeDevUUID e m lg))"]) simp
  have s3: "args (fst (snd (MountDevice e m lg))) = args m"
    by (rule MountDevice_args [of e m lg "fst (MountDevice e m lg)" _
          "snd (snd (MountDevice e m lg))"]) simp
  have s4: "args (fst (snd (Check e m lg))) = args m"
    by (rule Check_args [of e m lg "fst (Check e m lg)" _ "snd (snd (Check e m lg))"]) simp
  have start: "args (fst (snd (Start e n lg))) = args n" for n :: "'c DevMounter"
    by (rule Start_args [of e n lg "fst (Start e n lg)" _ "snd (snd (Start e n lg))"]) simp
  from start [of "NewMounterWithArgs d p c"] new
  have s5: "args (fst (snd (Start e (NewMounterWithArgs d p c) lg))) = \<lparr>dev = d, path = p, ctx = c\<rparr>"
    by simp
  note s6 = same_args [OF start [of m]]
  from new s1 s2 s3 s4 s5 s6 show ?thesis by (intro conjI)
qed

theorem Start_keeps_args_witness:
  "args (fst (snd (Start (listingIs (ok [''/dev/sdb1 on /mnt/data type ext4 (rw,relatime)'']))
      (NewMounterWithArgs ''/dev/sdb1'' ''/mnt/data'' ''{}'') []))) =
     \<lparr>dev = ''/dev/sdb1'', path = ''/mnt/data'', ctx = ''{}''\<rparr>
   \<and> fst (snd (Start (listingIs (ok [''/dev/sdb1 on /mnt/data type ext4 (rw,relatime)'']))
      (NewMounterWithArgs ''/dev/sdb1'' ''/mnt/data'' ''{}'') [])) =
     \<lparr>args = \<lparr>dev = ''/dev/sdb1'', path = ''/mnt/data'', ctx = ''{}''\<rparr>,
      caller = ''mount'', fs = ''ext4'', uuid = ''1234-abcd''\<rparr>"
proof -
  let ?e = "listingIs (ok [''/dev/sdb1 on /mnt/data type ext4 (rw,relatime)''])"
  have a: "args (fst (snd (Start ?e (NewMounterWithArgs ''/dev/sdb1'' ''/mnt/data'' ''{}'') []))) =
     \<lparr>dev = ''/dev/sdb1'', path = ''/mnt/data'', ctx = ''{}''\<rparr>"
    using Start_keeps_args [of "''/dev/sdb1''" "''/mnt/data''" "''{}''" ?e _ "[]"] by blast
  have b: "fst (snd (Start ?e (NewMounterWithArgs ''/dev/sdb1'' ''/mnt/data'' ''{}'') [])) =
     \<lparr>args = \<lparr>dev = ''/dev/sdb1'', path = ''/mnt/data'', ctx = ''{}''\<rparr>,
      caller = ''mount'', fs = ''ext4'', uuid = ''1234-abcd''\<rparr>"
    using mounted_Start by (simp add: sdb1_def NewMounterWithArgs_def constants)
  from a b show ?thesis by (intro conjI)
qed

end
